theory Spec2Isabelle
  imports Main "HOL-Library.Multiset"
begin

unbundle bit_operations_syntax

section \<open>The tokenizer of simple\_unix\_shell.c\<close>

text \<open>
  A C string is modelled by the list of its characters before the terminating NUL.
  Memory allocation (\<open>malloc\<close>, \<open>strdup\<close>) is taken to succeed. The two limits are the
  macros of the source.
\<close>

definition MAX_TOKENS :: nat where
  "MAX_TOKENS = 512"

definition MAX_COMMANDS :: nat where
  "MAX_COMMANDS = 64"

text \<open>The three characters \<open>trim\<close> compares with: space, tab and newline.\<close>

definition is_blank :: "char \<Rightarrow> bool" where
  "is_blank c = (c = CHR '' '' \<or> c = CHR 0x09 \<or> c = CHR 0x0A)"

text \<open>
  The second loop of \<open>trim\<close>: \<open>end\<close> starts at the last character and moves left,
  overwriting blanks with NUL, while \<open>end > s\<close>; the character at \<open>s\<close> itself is never
  overwritten. On the empty string \<open>end\<close> starts below \<open>s\<close> and the loop does not run.
\<close>

function trim_end :: "string \<Rightarrow> string" where
  "trim_end s = (if 1 < length s \<and> is_blank (last s) then trim_end (butlast s) else s)"
  by pat_completeness auto
termination
  by (relation "measure length") auto

declare trim_end.simps [simp del]

definition trim :: "string \<Rightarrow> string" where
  "trim s = trim_end (dropWhile is_blank s)"

text \<open>
  \<open>strtok_r(str, delim, &saveptr)\<close>: skip the leading delimiters; at the end of the
  string there is no token; otherwise the token runs to the next delimiter, which is
  overwritten with NUL, and \<open>saveptr\<close> is left behind it (or at the end of the string).
  The model returns the token and the new \<open>saveptr\<close>; a continuation call
  \<open>strtok_r(NULL, delim, &saveptr)\<close> is the same function applied to \<open>saveptr\<close>.
\<close>

definition strtok_r :: "string \<Rightarrow> string \<Rightarrow> string option \<times> string" where
  "strtok_r s delim =
     (let s1 = dropWhile (\<lambda>c. c \<in> set delim) s
      in if s1 = [] then (None, [])
         else (Some (takeWhile (\<lambda>c. c \<notin> set delim) s1),
               drop 1 (dropWhile (\<lambda>c. c \<notin> set delim) s1)))"

text \<open>
  The loop of \<open>split_pipeline\<close>: \<open>commands\<close> holds the entries written so far, so
  \<open>n\<close> is its length.
\<close>

function split_pipeline_loop :: "string option \<Rightarrow> string \<Rightarrow> string list \<Rightarrow> string list" where
  "split_pipeline_loop tok saveptr commands =
     (case tok of
        None \<Rightarrow> commands
      | Some t \<Rightarrow>
          if length commands < MAX_COMMANDS
          then (case strtok_r saveptr ''|'' of
                  (tok', saveptr') \<Rightarrow> split_pipeline_loop tok' saveptr' (commands @ [trim t]))
          else commands)"
  by pat_completeness auto
termination
  by (relation "measure (\<lambda>(tok, saveptr, commands). MAX_COMMANDS - length commands)") auto

declare split_pipeline_loop.simps [simp del]

definition split_pipeline :: "string \<Rightarrow> string list" where
  "split_pipeline line =
     (case strtok_r line ''|'' of (tok, saveptr) \<Rightarrow> split_pipeline_loop tok saveptr [])"

text \<open>The delimiters of \<open>parse_args\<close>: the string literal \<open>" \t\n"\<close>.\<close>

definition arg_delims :: string where
  "arg_delims = [CHR '' '', CHR 0x09, CHR 0x0A]"

function parse_args_loop :: "string option \<Rightarrow> string \<Rightarrow> string list \<Rightarrow> string list" where
  "parse_args_loop tok saveptr argv =
     (case tok of
        None \<Rightarrow> argv
      | Some t \<Rightarrow>
          if length argv < MAX_TOKENS
          then (case strtok_r saveptr arg_delims of
                  (tok', saveptr') \<Rightarrow> parse_args_loop tok' saveptr' (argv @ [t]))
          else argv)"
  by pat_completeness auto
termination
  by (relation "measure (\<lambda>(tok, saveptr, argv). MAX_TOKENS - length argv)") auto

declare parse_args_loop.simps [simp del]

text \<open>The result is the vector before its terminating NULL entry.\<close>

definition parse_args :: "string \<Rightarrow> string list" where
  "parse_args cmd =
     (case strtok_r cmd arg_delims of (tok, saveptr) \<Rightarrow> parse_args_loop tok saveptr [])"

subsection \<open>The splitting the specification describes\<close>

text \<open>
  The specification's \<open>split_pipeline\<close> in its own words: split on the single stage
  delimiter, trim leading and trailing whitespace from each resulting stage, drop no
  empty stage. \<open>line_fields d s\<close> are the stretches of \<open>s\<close> between the occurrences of
  \<open>d\<close>, empty ones included.
\<close>

fun line_fields :: "char \<Rightarrow> string \<Rightarrow> string list" where
  "line_fields d [] = [[]]"
| "line_fields d (c # cs) =
     (if c = d then [] # line_fields d cs
      else (case line_fields d cs of f # fs \<Rightarrow> (c # f) # fs | [] \<Rightarrow> [[c]]))"

definition spec_trim :: "string \<Rightarrow> string" where
  "spec_trim s = rev (dropWhile is_blank (rev (dropWhile is_blank s)))"

definition spec_split_pipeline :: "string \<Rightarrow> string list" where
  "spec_split_pipeline line = map spec_trim (line_fields (CHR ''|'') line)"

text \<open>The non-empty fields: what a run of \<open>strtok_r\<close> calls returns, as shown below.\<close>

definition tokens :: "char \<Rightarrow> string \<Rightarrow> string list" where
  "tokens d s = filter (\<lambda>f. f \<noteq> []) (line_fields d s)"

section \<open>Processes, descriptors and the state of the shell\<close>

type_synonym pid = int
type_synonym fd = int

definition STDIN_FILENO :: fd where
  "STDIN_FILENO = 0"

definition STDOUT_FILENO :: fd where
  "STDOUT_FILENO = 1"

definition STDERR_FILENO :: fd where
  "STDERR_FILENO = 2"

definition SIGKILL :: int where
  "SIGKILL = 9"

definition NL :: string where
  "NL = [CHR 0x0A]"

text \<open>
  What a \<open>waitpid\<close> call returns: the process with its status word, 0 (only with
  \<open>WNOHANG\<close>: the child has not changed state), or -1.
\<close>

datatype wait_result = Reaped int | StillRunning | WaitFailed

text \<open>
  The calls a process makes, in program order. \<open>EvSetFg\<close> is an assignment to the
  global \<open>current_child\<close>, which the SIGINT handler reads asynchronously; \<open>EvWait\<close> is
  the blocking \<open>waitpid(pid, &status, 0)\<close>, \<open>EvPoll\<close> the one with \<open>WNOHANG\<close>;
  \<open>EvStderr\<close> is an \<open>fprintf(stderr, ...)\<close> and \<open>EvPerror\<close> a \<open>perror\<close> with its
  prefix. The clock and resource readings change nothing and are not listed.
\<close>

datatype event =
    EvPipe fd fd
  | EvFork pid
  | EvDup2 fd fd
  | EvClose fd
  | EvSetFg pid
  | EvWait pid
  | EvPoll pid
  | EvKill pid int
  | EvSleep nat
  | EvAlarm int
  | EvPerror string
  | EvStderr string
  | EvMkstemp string fd
  | EvOpen string fd
  | EvLseek fd
  | EvWrite fd string
  | EvUnlink string
  | EvChdir string

text \<open>
  A child runs the branch \<open>pid == 0\<close> of its \<open>fork\<close> and never leaves it: the branch
  ends in \<open>exit\<close> or in a successful \<open>execvp\<close>, which replaces the program.
\<close>

datatype child_outcome = Exited int | Execd string "string list"

record child_run =
  c_events :: "event list"
  c_outcome :: child_outcome

text \<open>
  The operating system, as far as the shell sees it. Every field is the result of a
  call the source makes:
  \<^item> \<open>env_pipe i\<close>: the two descriptors of the \<open>pipe\<close> call of iteration \<open>i\<close>, \<open>None\<close>
    for -1;
  \<^item> \<open>env_fork i\<close>: what the \<open>i\<close>-th \<open>fork\<close> of a call returns in the parent: the
    child's process identifier, or -1;
  \<^item> \<open>env_waitpid p\<close>: the blocking wait for \<open>p\<close>; \<open>env_poll k\<close>: the \<open>k\<close>-th
    non-blocking wait of the profiler (\<open>k\<close> sleeps of one second after the first);
  \<^item> \<open>env_execvp file argv\<close>: \<open>None\<close> when the program was replaced, otherwise the
    text of \<open>strerror(errno)\<close>;
  \<^item> \<open>env_mkstemp\<close>: what \<open>mkstemp\<close> returns, the descriptor of the new temporary
    file or -1, and the name it has written into \<open>tmpname\<close>;
  \<^item> \<open>env_open path\<close>: what \<open>open(path, O_WRONLY | O_CREAT | O_APPEND, 0644)\<close> returns,
    a descriptor or -1;
  \<^item> \<open>env_program_output\<close>: what the executed program and its descendants have
    written to their standard output and error when the shell reads the capture;
  \<^item> \<open>env_real\<close>, \<open>env_usr\<close>, \<open>env_sys\<close>: the three times as \<open>%.6f\<close> prints them
    (the floating-point arithmetic is not modelled); \<open>env_maxrss\<close>: \<open>ru_maxrss\<close>;
  \<^item> \<open>env_beyond\<close>: the bytes that follow the array \<open>summary\<close> in memory.
\<close>

record env =
  env_pipe :: "nat \<Rightarrow> (fd \<times> fd) option"
  env_fork :: "nat \<Rightarrow> pid"
  env_waitpid :: "pid \<Rightarrow> wait_result"
  env_poll :: "nat \<Rightarrow> wait_result"
  env_execvp :: "string \<Rightarrow> string list \<Rightarrow> string option"
  env_mkstemp :: "fd \<times> string"
  env_open :: "string \<Rightarrow> fd"
  env_program_output :: string
  env_real :: string
  env_usr :: string
  env_sys :: string
  env_maxrss :: int
  env_beyond :: string

text \<open>
  The shell process: the global \<open>current_child\<close>, the calls made so far, the regular
  files by path, and the children forked so far, each with its run.
\<close>

record shell =
  current_child :: pid
  trace :: "event list"
  files :: "string \<rightharpoonup> string"
  procs :: "(pid \<times> child_run) list"

definition emit :: "event \<Rightarrow> shell \<Rightarrow> shell" where
  "emit e s = s\<lparr>trace := trace s @ [e]\<rparr>"

definition set_current_child :: "pid \<Rightarrow> shell \<Rightarrow> shell" where
  "set_current_child p s = (emit (EvSetFg p) s)\<lparr>current_child := p\<rparr>"

subsection \<open>execute\_pipeline\<close>

text \<open>
  The child of iteration \<open>i\<close>: it has the parent's \<open>in_fd\<close>, \<open>pipefd\<close>, \<open>i\<close> and
  \<open>n\<close> as they were at the \<open>fork\<close>.
\<close>

definition stage_child :: "env \<Rightarrow> string list \<Rightarrow> nat \<Rightarrow> nat \<Rightarrow> fd \<Rightarrow> fd \<times> fd \<Rightarrow> child_run" where
  "stage_child env commands n i in_fd pipefd =
     (let ev1 = (if in_fd \<noteq> STDIN_FILENO
                 then [EvDup2 in_fd STDIN_FILENO, EvClose in_fd] else []);
          ev2 = (if i < n - 1
                 then [EvClose (fst pipefd), EvDup2 (snd pipefd) STDOUT_FILENO, EvClose (snd pipefd)]
                 else []);
          argv = parse_args (commands ! i)
      in if argv = [] then \<lparr>c_events = ev1 @ ev2, c_outcome = Exited 0\<rparr>
         else (case env_execvp env (argv ! 0) argv of
                 None \<Rightarrow> \<lparr>c_events = ev1 @ ev2, c_outcome = Execd (argv ! 0) argv\<rparr>
               | Some err \<Rightarrow>
                   \<lparr>c_events = ev1 @ ev2 @ [EvStderr (''mishell: '' @ argv ! 0 @ '': '' @ err @ NL)],
                    c_outcome = Exited 127\<rparr>))"

text \<open>
  The first loop. \<open>Inl\<close> is the early \<open>return -1\<close>; \<open>Inr\<close> carries \<open>pids\<close> out of
  the loop. In \<open>i < n - 1\<close> the subtraction is the one on natural numbers: the test is
  only reached with \<open>i < n\<close>, where it agrees with C's. The array \<open>pids\<close> has
  \<open>MAX_COMMANDS\<close> entries and \<open>commands\<close> has at least \<open>n\<close>: both callers pass such
  arguments, and the properties below are stated for them.
\<close>

function spawn_loop ::
  "env \<Rightarrow> string list \<Rightarrow> nat \<Rightarrow> nat \<Rightarrow> fd \<Rightarrow> pid list \<Rightarrow> shell \<Rightarrow> shell + pid list \<times> shell" where
  "spawn_loop env commands n i in_fd pids s =
     (if i < n then
        (case (if i < n - 1 then env_pipe env i else Some (- 1, - 1)) of
           None \<Rightarrow> Inl (emit (EvPerror ''pipe'') s)
         | Some pipefd \<Rightarrow>
             (let s1 = (if i < n - 1 then emit (EvPipe (fst pipefd) (snd pipefd)) s else s);
                  pid = env_fork env i
              in if pid = - 1 then Inl (emit (EvPerror ''fork'') s1)
                 else
                   (let s2 = (emit (EvFork pid) s1)
                               \<lparr>procs := procs s1 @
                                  [(pid, stage_child env commands n i in_fd pipefd)]\<rparr>;
                        s3 = (if in_fd \<noteq> STDIN_FILENO then emit (EvClose in_fd) s2 else s2);
                        s4 = (if i < n - 1 then emit (EvClose (snd pipefd)) s3 else s3);
                        in_fd' = (if i < n - 1 then fst pipefd else in_fd)
                    in spawn_loop env commands n (i + 1) in_fd' (pids @ [pid]) s4)))
      else Inr (pids, s))"
  by pat_completeness auto
termination
  by (relation "measure (\<lambda>(env, commands, n, i, in_fd, pids, s). n - i)") auto

declare spawn_loop.simps [simp del]

text \<open>
  The second loop, over the entries of \<open>pids\<close>. The result of \<open>waitpid\<close> is not
  looked at; \<open>status\<close> is written only when the call reaped the child.
\<close>

fun wait_loop :: "env \<Rightarrow> pid list \<Rightarrow> int \<Rightarrow> shell \<Rightarrow> int \<times> shell" where
  "wait_loop env [] status s = (status, s)"
| "wait_loop env (p # ps) status s =
     wait_loop env ps
       (case env_waitpid env p of Reaped st \<Rightarrow> st | _ \<Rightarrow> status)
       (emit (EvWait p) (set_current_child p s))"

definition execute_pipeline :: "env \<Rightarrow> string list \<Rightarrow> nat \<Rightarrow> shell \<Rightarrow> int \<times> shell" where
  "execute_pipeline env commands n s =
     (case spawn_loop env commands n 0 STDIN_FILENO [] s of
        Inl s' \<Rightarrow> (- 1, s')
      | Inr (pids, s1) \<Rightarrow>
          (case wait_loop env pids 0 s1 of
             (status, s2) \<Rightarrow> (status, set_current_child 0 s2)))"

subsection \<open>run\_and\_profile\<close>

text \<open>
  The macros of \<open>sys/wait.h\<close> the summary uses (they are not in the repository): a
  status word holds the terminating signal in its low seven bits, zero after a normal
  exit, and the exit code in the next eight.
\<close>

definition WIFEXITED :: "int \<Rightarrow> bool" where
  "WIFEXITED status = (status AND 0x7f = 0)"

definition WEXITSTATUS :: "int \<Rightarrow> int" where
  "WEXITSTATUS status = drop_bit 8 (status AND 0xff00)"

text \<open>Decimal output, as \<open>%d\<close> and \<open>%ld\<close> print an integer.\<close>

fun show_nat :: "nat \<Rightarrow> string" where
  "show_nat n =
     (if n < 10 then [char_of (48 + n)] else show_nat (n div 10) @ [char_of (48 + n mod 10)])"

declare show_nat.simps [simp del]

definition show_int :: "int \<Rightarrow> string" where
  "show_int i = (if i < 0 then CHR ''-'' # show_nat (nat (- i)) else show_nat (nat i))"

text \<open>The text the format string of \<open>snprintf\<close> produces, before any truncation.\<close>

definition summary_text :: "env \<Rightarrow> string list \<Rightarrow> int \<Rightarrow> string" where
  "summary_text env argv status =
     ''Comando: '' @ argv ! 0 @ NL @
     ''Real: '' @ env_real env @ ''s  Usuario: '' @ env_usr env @
     ''s  Sistema: '' @ env_sys env @ ''s  MaxRSS: '' @ show_int (env_maxrss env) @ NL @
     ''ExitStatus: '' @ show_int (if WIFEXITED status then WEXITSTATUS status else - 1) @ NL"

text \<open>
  \<open>snprintf(summary, sizeof(summary), ...)\<close> stores at most 1023 characters and a
  NUL, and returns the length \<open>n\<close> of the whole text. The later \<open>write(fd, summary, n)\<close>
  takes \<open>n\<close> bytes from the start of the array: the text itself when it fits, and
  otherwise the stored part, the NUL and what lies beyond the array.
\<close>

definition SUMMARY_SIZE :: nat where
  "SUMMARY_SIZE = 1024"

definition summary_bytes :: "env \<Rightarrow> string \<Rightarrow> string" where
  "summary_bytes env text =
     take (length text) (take (SUMMARY_SIZE - 1) text @ [CHR 0x00] @ env_beyond env)"

text \<open>The child of the profiler's \<open>fork\<close>.\<close>

definition profile_child :: "env \<Rightarrow> string list \<Rightarrow> int \<Rightarrow> fd \<Rightarrow> int \<Rightarrow> child_run" where
  "profile_child env argv save_to_file tmpfd timeout_seconds =
     (let ev1 = (if save_to_file \<noteq> 0
                 then [EvDup2 tmpfd STDOUT_FILENO, EvDup2 tmpfd STDERR_FILENO, EvClose tmpfd]
                 else []);
          ev2 = (if 0 < timeout_seconds then [EvAlarm timeout_seconds] else [])
      in case env_execvp env (argv ! 0) argv of
           None \<Rightarrow> \<lparr>c_events = ev1 @ ev2, c_outcome = Execd (argv ! 0) argv\<rparr>
         | Some err \<Rightarrow>
             \<lparr>c_events = ev1 @ ev2 @ [EvStderr (''mishell: '' @ argv ! 0 @ '': '' @ err @ NL)],
              c_outcome = Exited 127\<rparr>)"

text \<open>
  What a child has written to its standard error and output: the message of its own
  branch, and after a successful \<open>execvp\<close> the output of the program.
\<close>

definition child_output :: "env \<Rightarrow> child_run \<Rightarrow> string" where
  "child_output env run =
     concat (map (\<lambda>e. case e of EvStderr m \<Rightarrow> m | _ \<Rightarrow> []) (c_events run)) @
     (case c_outcome run of Execd file argv \<Rightarrow> env_program_output env | Exited code \<Rightarrow> [])"

text \<open>
  The wait with a time limit. \<open>waited\<close> counts the sleeps, so the poll made with
  \<open>waited = k\<close> is the \<open>k\<close>-th.
\<close>

function poll_loop :: "env \<Rightarrow> pid \<Rightarrow> int \<Rightarrow> nat \<Rightarrow> int \<Rightarrow> shell \<Rightarrow> int \<times> shell" where
  "poll_loop env pid timeout_seconds waited status s =
     (let s1 = emit (EvPoll pid) s
      in case env_poll env waited of
           Reaped st \<Rightarrow> (st, s1)
         | WaitFailed \<Rightarrow> (status, emit (EvPerror ''waitpid'') s1)
         | StillRunning \<Rightarrow>
             if timeout_seconds \<le> int waited then
               (case env_waitpid env pid of Reaped st \<Rightarrow> st | _ \<Rightarrow> status,
                emit (EvWait pid) (emit (EvKill pid SIGKILL) s1))
             else poll_loop env pid timeout_seconds (waited + 1) status (emit (EvSleep 1) s1))"
  by pat_completeness auto
termination
  by (relation "measure (\<lambda>(env, pid, timeout_seconds, waited, status, s).
        nat (timeout_seconds - int waited))") auto

declare poll_loop.simps [simp del]

text \<open>
  A \<open>write\<close> to a descriptor opened with \<open>O_APPEND\<close> on \<open>path\<close>; the source does not
  look at its result, and the model takes every write as complete.
\<close>

definition file_content :: "shell \<Rightarrow> string \<Rightarrow> string" where
  "file_content s path = (case files s path of None \<Rightarrow> [] | Some c \<Rightarrow> c)"

definition write_append :: "fd \<Rightarrow> string \<Rightarrow> string \<Rightarrow> shell \<Rightarrow> shell" where
  "write_append outfd path bytes s =
     (emit (EvWrite outfd bytes) s)\<lparr>files := (files s)(path \<mapsto> file_content s path @ bytes)\<rparr>"

text \<open>
  The copy loop: \<open>read\<close> fills at most 4096 bytes of \<open>buf\<close> from the unread rest of
  the temporary file, and the loop ends when it returns nothing.
\<close>

function copy_loop :: "string \<Rightarrow> fd \<Rightarrow> string \<Rightarrow> shell \<Rightarrow> shell" where
  "copy_loop unread outfd path s =
     (let buf = take 4096 unread
      in if 0 < length buf then copy_loop (drop 4096 unread) outfd path (write_append outfd path buf s)
         else s)"
  by pat_completeness auto
termination
  by (relation "measure (\<lambda>(unread, outfd, path, s). length unread)") auto

declare copy_loop.simps [simp del]

text \<open>The block \<open>if (save_to_file && tmpfd != -1)\<close>, entered with the summary text.\<close>

definition save_output :: "env \<Rightarrow> string list \<Rightarrow> string \<Rightarrow> fd \<Rightarrow> string \<Rightarrow> string \<Rightarrow> shell \<Rightarrow> shell" where
  "save_output env argv filename tmpfd tmpname text s =
     (let outfd = env_open env filename;
          s1 = (if outfd = - 1 then emit (EvPerror ''abrir archivo de salida'') s
                else
                    (let o1 = (emit (EvOpen filename outfd) s)
                                \<lparr>files := (files s)(filename \<mapsto> file_content s filename)\<rparr>;
                         o2 = write_append outfd filename
                                (''---- miprof append: '' @ argv ! 0 @ '' ----'' @ NL) o1;
                         o3 = emit (EvLseek tmpfd) o2;
                         o4 = copy_loop (file_content o3 tmpname) outfd filename o3;
                         o5 = write_append outfd filename (summary_bytes env text) o4;
                         o6 = write_append outfd filename NL o5
                     in emit (EvClose outfd) o6));
          s2 = emit (EvClose tmpfd) s1
      in (emit (EvUnlink tmpname) s2)\<lparr>files := (files s2)(tmpname := None)\<rparr>)"

text \<open>
  \<open>run_and_profile\<close>. At the \<open>fork\<close> the child starts to run beside the shell; with
  \<open>save_to_file\<close> its standard output and error are the temporary file, whose content
  the shell reads only after the wait.
\<close>

definition run_and_profile ::
  "env \<Rightarrow> string list \<Rightarrow> int \<Rightarrow> string \<Rightarrow> int \<Rightarrow> shell \<Rightarrow> int \<times> shell" where
  "run_and_profile env argv save_to_file filename timeout_seconds s =
     (let (tmpfd, tmpname) =
            (if save_to_file \<noteq> 0 then env_mkstemp env else (- 1, ''/tmp/miprof_out_XXXXXX''))
      in if save_to_file \<noteq> 0 \<and> tmpfd = - 1 then (- 1, emit (EvPerror ''mkstemp'') s)
         else
           (let s1 = (if save_to_file \<noteq> 0
                      then (emit (EvMkstemp tmpname tmpfd) s)\<lparr>files := (files s)(tmpname \<mapsto> [])\<rparr>
                      else s);
                pid = env_fork env 0
            in if pid = - 1 then (- 1, emit (EvPerror ''fork'') s1)
               else
                 (let child = profile_child env argv save_to_file tmpfd timeout_seconds;
                      s2 = (emit (EvFork pid) s1)
                             \<lparr>procs := procs s1 @ [(pid, child)],
                              files := (if save_to_file \<noteq> 0
                                        then (files s1)(tmpname \<mapsto> child_output env child)
                                        else files s1)\<rparr>;
                      s3 = set_current_child pid s2;
                      (status, s4) =
                         (if 0 < timeout_seconds then poll_loop env pid timeout_seconds 0 0 s3
                          else (case env_waitpid env pid of Reaped st \<Rightarrow> st | _ \<Rightarrow> 0,
                                emit (EvWait pid) s3));
                      text = summary_text env argv status;
                      s5 = (if save_to_file \<noteq> 0 \<and> tmpfd \<noteq> - 1
                            then save_output env argv filename tmpfd tmpname text s4
                            else if save_to_file = 0
                            then emit (EvWrite STDOUT_FILENO (summary_bytes env text)) s4
                            else s4)
                  in (status, set_current_child 0 s5))))"

subsection \<open>handle\_single\_command\<close>

text \<open>
  \<open>atoi\<close> as the C library has it (glibc on a 64-bit system, where it is \<open>strtol\<close> in
  base 10 cut to \<open>int\<close>): white space, an optional sign, then digits up to the first
  character that is none; \<open>strtol\<close> stops at the bounds of \<open>long\<close>.
\<close>

definition isspace :: "char \<Rightarrow> bool" where
  "isspace c = (c \<in> set [CHR '' '', CHR 0x09, CHR 0x0A, CHR 0x0B, CHR 0x0C, CHR 0x0D])"

definition isdigit :: "char \<Rightarrow> bool" where
  "isdigit c = (48 \<le> (of_char c :: nat) \<and> (of_char c :: nat) \<le> 57)"

fun digits_value :: "int \<Rightarrow> string \<Rightarrow> int" where
  "digits_value acc [] = acc"
| "digits_value acc (c # cs) =
     (if isdigit c then digits_value (acc * 10 + (of_char c - 48)) cs else acc)"

definition strtol10 :: "string \<Rightarrow> int" where
  "strtol10 s =
     (let s1 = dropWhile isspace s;
          v = (case s1 of
                 [] \<Rightarrow> 0
               | c # r \<Rightarrow>
                   if c = CHR ''-'' then - digits_value 0 r
                   else if c = CHR ''+'' then digits_value 0 r
                   else digits_value 0 s1)
      in max (- (2 ^ 63)) (min (2 ^ 63 - 1) v))"

definition atoi :: "string \<Rightarrow> int" where
  "atoi s = (strtol10 s + 2 ^ 31) mod 2 ^ 32 - 2 ^ 31"

text \<open>\<open>ShellExit\<close> is the \<open>exit(0)\<close> of the builtin: the shell itself ends.\<close>

datatype outcome = Returned int | ShellExit int

definition handle_single_command :: "env \<Rightarrow> string \<Rightarrow> shell \<Rightarrow> outcome \<times> shell" where
  "handle_single_command env cmdline s =
     (let argv = parse_args cmdline
      in if argv = [] then (Returned 0, s)
         else if argv ! 0 = ''exit'' then (ShellExit 0, s)
         else if argv ! 0 = ''cd'' then
           (Returned 0, if 1 < length argv then emit (EvChdir (argv ! 1)) s else s)
         else if argv ! 0 = ''miprof'' then
           (Returned 0,
            if \<not> 1 < length argv then
              emit (EvStderr (''uso: miprof [ejec|ejcsave archivo|maxtiempo segs] comando args...'' @ NL)) s
            else if argv ! 1 = ''ejec'' then
              (if \<not> 2 < length argv
               then emit (EvStderr (''no se indic'' @ [CHR 0xC3, CHR 0xB3] @ '' comando para ejec'' @ NL)) s
               else snd (run_and_profile env (drop 2 argv) 0 [] 0 s))
            else if argv ! 1 = ''ejecsave'' then
              (if \<not> 2 < length argv \<or> \<not> 3 < length argv
               then emit (EvStderr (''uso: miprof ejecsave archivo comando args...'' @ NL)) s
               else snd (run_and_profile env (drop 3 argv) 1 (argv ! 2) 0 s))
            else if argv ! 1 = ''maxtiempo'' then
              (if \<not> 2 < length argv \<or> \<not> 3 < length argv
               then emit (EvStderr (''uso: miprof maxtiempo segs comando args...'' @ NL)) s
               else snd (run_and_profile env (drop 3 argv) 0 [] (atoi (argv ! 2)) s))
            else emit (EvStderr (''miprof: modo desconocido '' @ argv ! 1 @ NL)) s)
         else (case execute_pipeline env [cmdline] 1 s of
                 (status, s') \<Rightarrow> (Returned status, s')))"

section \<open>Notions the properties are stated with\<close>

text \<open>
  When every \<open>pipe\<close> and \<open>fork\<close> of a call with \<open>n\<close> stages succeeds, iteration
  \<open>i\<close> runs with these values of \<open>in_fd\<close> and \<open>pipefd\<close>, makes these calls, and
  forks this child.
\<close>

definition in_fd_at :: "env \<Rightarrow> nat \<Rightarrow> fd" where
  "in_fd_at env i = (if i = 0 then STDIN_FILENO else fst (the (env_pipe env (i - 1))))"

definition pipefd_at :: "env \<Rightarrow> nat \<Rightarrow> nat \<Rightarrow> fd \<times> fd" where
  "pipefd_at env n i = (if i < n - 1 then the (env_pipe env i) else (- 1, - 1))"

definition spawn_events :: "env \<Rightarrow> nat \<Rightarrow> nat \<Rightarrow> event list" where
  "spawn_events env n i =
     (if i < n - 1 then [EvPipe (fst (pipefd_at env n i)) (snd (pipefd_at env n i))] else []) @
     [EvFork (env_fork env i)] @
     (if in_fd_at env i \<noteq> STDIN_FILENO then [EvClose (in_fd_at env i)] else []) @
     (if i < n - 1 then [EvClose (snd (pipefd_at env n i))] else [])"

definition spawned_child :: "env \<Rightarrow> string list \<Rightarrow> nat \<Rightarrow> nat \<Rightarrow> pid \<times> child_run" where
  "spawned_child env commands n i =
     (env_fork env i, stage_child env commands n i (in_fd_at env i) (pipefd_at env n i))"

text \<open>
  The order of the descriptor calls of stage \<open>i\<close> as the amended claim C2 words it:
  the channel to the next stage is created, the stage is forked, the read end of the
  channel from the previous stage is closed, the write end of the channel to the next
  stage is closed.
\<close>

definition read_end :: "env \<Rightarrow> nat \<Rightarrow> fd" where
  "read_end env i = fst (the (env_pipe env i))"

definition write_end :: "env \<Rightarrow> nat \<Rightarrow> fd" where
  "write_end env i = snd (the (env_pipe env i))"

definition stage_fd_events :: "env \<Rightarrow> nat \<Rightarrow> nat \<Rightarrow> event list" where
  "stage_fd_events env n i =
     (if i < n - 1 then [EvPipe (read_end env i) (write_end env i)] else []) @
     [EvFork (env_fork env i)] @
     (if 0 < i then [EvClose (read_end env (i - 1))] else []) @
     (if i < n - 1 then [EvClose (write_end env i)] else [])"

text \<open>
  The calls with which the child of stage \<open>i\<close> takes over its ends of the channels:
  the read end of the channel from the previous stage becomes its standard input, the
  write end of the channel to the next stage its standard output.
\<close>

definition stage_child_fd_events :: "env \<Rightarrow> nat \<Rightarrow> nat \<Rightarrow> event list" where
  "stage_child_fd_events env n i =
     (if 0 < i then [EvDup2 (read_end env (i - 1)) STDIN_FILENO, EvClose (read_end env (i - 1))]
      else []) @
     (if i < n - 1
      then [EvClose (read_end env i), EvDup2 (write_end env i) STDOUT_FILENO, EvClose (write_end env i)]
      else [])"

text \<open>Parts of a trace: the descriptor calls, the slot and the waits, the timed wait.\<close>

definition is_fd_event :: "event \<Rightarrow> bool" where
  "is_fd_event e = (case e of EvPipe r w \<Rightarrow> True | EvFork p \<Rightarrow> True | EvClose f \<Rightarrow> True | _ \<Rightarrow> False)"

definition fd_events :: "event list \<Rightarrow> event list" where
  "fd_events tr = filter is_fd_event tr"

definition is_fg_event :: "event \<Rightarrow> bool" where
  "is_fg_event e = (case e of EvSetFg p \<Rightarrow> True | EvWait p \<Rightarrow> True | _ \<Rightarrow> False)"

definition fg_events :: "event list \<Rightarrow> event list" where
  "fg_events tr = filter is_fg_event tr"

definition is_wait_event :: "event \<Rightarrow> bool" where
  "is_wait_event e =
     (case e of EvWait p \<Rightarrow> True | EvPoll p \<Rightarrow> True | EvKill p sig \<Rightarrow> True | EvSleep k \<Rightarrow> True
      | _ \<Rightarrow> False)"

definition wait_events :: "event list \<Rightarrow> event list" where
  "wait_events tr = filter is_wait_event tr"

text \<open>The descriptors a trace creates with \<open>pipe\<close>, and the ones it closes.\<close>

definition created_fds :: "event list \<Rightarrow> fd list" where
  "created_fds tr = concat (map (\<lambda>e. case e of EvPipe r w \<Rightarrow> [r, w] | _ \<Rightarrow> []) tr)"

definition closed_fds :: "event list \<Rightarrow> fd list" where
  "closed_fds tr = concat (map (\<lambda>e. case e of EvClose f \<Rightarrow> [f] | _ \<Rightarrow> []) tr)"

text \<open>
  \<open>occurs_after a b tr\<close>: \<open>b\<close> occurs in \<open>tr\<close> somewhere behind the first \<open>a\<close>;
  \<open>next_event a tr\<close>: the event that follows the first \<open>a\<close>.
\<close>

definition occurs_after :: "event \<Rightarrow> event \<Rightarrow> event list \<Rightarrow> bool" where
  "occurs_after a b tr = (b \<in> set (drop 1 (dropWhile (\<lambda>e. e \<noteq> a) tr)))"

definition next_event :: "event \<Rightarrow> event list \<Rightarrow> event option" where
  "next_event a tr = (case dropWhile (\<lambda>e. e \<noteq> a) tr of x # y # rest \<Rightarrow> Some y | _ \<Rightarrow> None)"

text \<open>The bytes a trace writes, with the descriptor each \<open>write\<close> goes to.\<close>

definition written :: "event list \<Rightarrow> (fd \<times> string) list" where
  "written tr = concat (map (\<lambda>e. case e of EvWrite f b \<Rightarrow> [(f, b)] | _ \<Rightarrow> []) tr)"


text \<open>The block the specification gives for \<open>ejecsave\<close>.\<close>

definition spec_block :: "string \<Rightarrow> string \<Rightarrow> string \<Rightarrow> string" where
  "spec_block command captured summary =
     ''---- miprof append: '' @ command @ '' ----'' @ NL @ captured @ summary @ NL"

text \<open>
  Every \<open>pipe\<close> and \<open>fork\<close> of a call with \<open>n\<close> stages succeeds; the calls a run
  adds to the trace.
\<close>

definition spawn_ok :: "env \<Rightarrow> nat \<Rightarrow> bool" where
  "spawn_ok env n = (\<forall>i<n. env_fork env i \<noteq> - 1 \<and> (i < n - 1 \<longrightarrow> env_pipe env i \<noteq> None))"

definition new_events :: "shell \<Rightarrow> shell \<Rightarrow> event list" where
  "new_events s s' = drop (length (trace s)) (trace s')"

text \<open>
  The timed wait in closed form: \<open>poll_events pid k\<close> are \<open>k\<close> rounds of a non-blocking
  wait and a sleep of one second, and one more non-blocking wait; \<open>timed_wait\<close> is the
  status and the calls of the whole wait of the profiler, which kills the child when
  none of the polls \<open>0, \<dots>, timeout_seconds\<close> has seen it end.
\<close>

definition poll_events :: "pid \<Rightarrow> nat \<Rightarrow> event list" where
  "poll_events pid k = concat (replicate k [EvPoll pid, EvSleep 1]) @ [EvPoll pid]"

definition timed_wait :: "env \<Rightarrow> pid \<Rightarrow> int \<Rightarrow> int \<times> event list" where
  "timed_wait env pid T =
     (if 0 < T then
        (case find (\<lambda>k. env_poll env k \<noteq> StillRunning) [0..<Suc (nat T)] of
           None \<Rightarrow>
             (case env_waitpid env pid of Reaped x \<Rightarrow> x | _ \<Rightarrow> 0,
              poll_events pid (nat T) @ [EvKill pid SIGKILL, EvWait pid])
         | Some k \<Rightarrow>
             (case env_poll env k of Reaped x \<Rightarrow> x | _ \<Rightarrow> 0,
              poll_events pid k @
                (if env_poll env k = WaitFailed then [EvPerror ''waitpid''] else [])))
      else (case env_waitpid env pid of Reaped x \<Rightarrow> x | _ \<Rightarrow> 0, [EvWait pid]))"

text \<open>The pieces of at most 4096 bytes in which the capture is copied.\<close>

function chunks :: "string \<Rightarrow> string list" where
  "chunks u = (if u = [] then [] else take 4096 u # chunks (drop 4096 u))"
  by pat_completeness auto
termination
  by (relation "measure length") auto

declare chunks.simps [simp del]

text \<open>The first line of an appended block.\<close>

definition block_header :: "string list \<Rightarrow> string" where
  "block_header argv = ''---- miprof append: '' @ argv ! 0 @ '' ----'' @ NL"

text \<open>
  A string in which \<open>atoi\<close> finds a number: after white space and an optional sign
  comes a digit. What follows the digits does not matter to \<open>atoi\<close>.
\<close>

definition leading_number :: "string \<Rightarrow> bool" where
  "leading_number s =
     (case dropWhile isspace s of
        [] \<Rightarrow> False
      | c # r \<Rightarrow> if c = CHR ''-'' \<or> c = CHR ''+'' then r \<noteq> [] \<and> isdigit (hd r) else isdigit c)"

text \<open>
  A numeric string as claim C10 uses the word: an optional sign, then digits, at least
  one, and nothing else. Every other string is non-numeric.
\<close>

definition spec_numeric :: "string \<Rightarrow> bool" where
  "spec_numeric s =
     (let d = (case s of [] \<Rightarrow> [] | c # r \<Rightarrow> if c = CHR ''-'' \<or> c = CHR ''+'' then r else s)
      in d \<noteq> [] \<and> list_all isdigit d)"

section \<open>Sample runs\<close>

text \<open>
  A shell with nothing running, and an operating system in which every call succeeds:
  the first stage of a pipeline exits with code 1, the others with 0; the program
  \<open>nosuchprogramxyz\<close> does not exist; a polled child never ends by itself.
\<close>

definition shell0 :: shell where
  "shell0 = \<lparr>current_child = 0, trace = [], files = Map.empty, procs = []\<rparr>"

definition env0 :: env where
  "env0 =
     \<lparr>env_pipe = (\<lambda>i. if i = 0 then Some (3, 4) else if i = 1 then Some (4, 5) else None),
      env_fork = (\<lambda>i. 100 + int i),
      env_waitpid = (\<lambda>p. if p = 100 then Reaped 256 else Reaped 0),
      env_poll = (\<lambda>k. StillRunning),
      env_execvp = (\<lambda>file argv. if file = ''nosuchprogramxyz''
                                 then Some ''No such file or directory'' else None),
      env_mkstemp = (3, ''/tmp/miprof_out_a1B2c3''),
      env_open = (\<lambda>path. 4),
      env_program_output = ''hello'' @ NL,
      env_real = ''1.000321'',
      env_usr = ''0.000500'',
      env_sys = ''0.000250'',
      env_maxrss = 2048,
      env_beyond = replicate 256 (CHR ''?'')\<rparr>"

text \<open>The second \<open>fork\<close> of a call fails.\<close>

definition env_fork_fails :: env where
  "env_fork_fails = env0\<lparr>env_fork := (\<lambda>i. if i = 1 then - 1 else 100)\<rparr>"

text \<open>
  A child that never ends by itself and dies from the profiler's \<open>SIGKILL\<close> (status
  9); and a child that something else kills with the same signal during the first
  second, so that the second poll reaps it.
\<close>

definition env_timeout :: env where
  "env_timeout = env0\<lparr>env_waitpid := (\<lambda>p. Reaped 9)\<rparr>"


text \<open>
  The target file cannot be opened; and a shell that starts with a file \<open>out.txt\<close>.
\<close>

definition env_open_fails :: env where
  "env_open_fails = env0\<lparr>env_open := (\<lambda>path. - 1)\<rparr>"

definition shell_log :: shell where
  "shell_log = shell0\<lparr>files := [''out.txt'' \<mapsto> ''old'' @ NL]\<rparr>"

text \<open>A command name of 1000 characters.\<close>

definition long_name :: string where
  "long_name = replicate 1000 (CHR ''a'')"

text \<open>
  A \<open>waitpid\<close> for the second stage that fails (the call returns \<open>-1\<close> and stores no
  status, as when a signal interrupts it), after a first stage that exits with code 1,
  and after one that exits with code 2; and a \<open>waitpid\<close> that fails for every child.
\<close>

definition env_last_wait_fails :: env where
  "env_last_wait_fails = env0\<lparr>env_waitpid := (\<lambda>p. if p = 100 then Reaped 256 else WaitFailed)\<rparr>"

definition env_last_wait_fails2 :: env where
  "env_last_wait_fails2 = env0\<lparr>env_waitpid := (\<lambda>p. if p = 100 then Reaped 512 else WaitFailed)\<rparr>"

definition env_all_waits_fail :: env where
  "env_all_waits_fail = env0\<lparr>env_waitpid := (\<lambda>p. WaitFailed)\<rparr>"


section \<open>Tokenizer: what the loops compute\<close>

lemma trim_end_eq: "s = [] \<or> \<not> is_blank (hd s) \<Longrightarrow> trim_end s = rev (dropWhile is_blank (rev s))"
proof (induction s rule: trim_end.induct)
  case (1 s)
  show ?case
  proof (cases "1 < length s \<and> is_blank (last s)")
    case True
    then have ne: "s \<noteq> []" and bl: "is_blank (last s)" and len: "1 < length s" by auto
    have "butlast s \<noteq> []" using len by (cases s rule: rev_cases) auto
    then have hd: "hd (butlast s) = hd s" by (cases s) auto
    have "trim_end s = trim_end (butlast s)" using True by (subst trim_end.simps) simp
    also have "\<dots> = rev (dropWhile is_blank (rev (butlast s)))"
      using "1.IH"[OF True] "1.prems" ne hd by auto
    also have "\<dots> = rev (dropWhile is_blank (rev s))"
      using ne bl by (cases s rule: rev_cases) auto
    finally show ?thesis .
  next
    case False
    then have te: "trim_end s = s" by (subst trim_end.simps) auto
    show ?thesis
    proof (cases s rule: rev_cases)
      case Nil
      then show ?thesis using te by simp
    next
      case (snoc ys y)
      show ?thesis
      proof (cases "is_blank y")
        case True
        with False snoc have "ys = []" by auto
        with snoc True "1.prems" show ?thesis by auto
      next
        case False
        then show ?thesis using te snoc by simp
      qed
    qed
  qed
qed

lemma trim_spec: "trim s = spec_trim s"
  unfolding trim_def spec_trim_def
  by (rule trim_end_eq) (metis hd_dropWhile)



lemma fields_not_Nil: "line_fields d s \<noteq> []"
  by (induction s) (auto split: list.splits)

lemma tokens_skip: "tokens d (dropWhile (\<lambda>c. c \<in> set [d]) s) = tokens d s"
  by (induction s) (auto simp: tokens_def)

lemma tokens_all_delims: "dropWhile (\<lambda>c. c \<in> set [d]) s = [] \<Longrightarrow> tokens d s = []"
  by (induction s) (auto simp: tokens_def split: if_splits)

lemma fields_token:
  "s \<noteq> [] \<Longrightarrow> hd s \<noteq> d \<Longrightarrow>
   line_fields d s = takeWhile (\<lambda>c. c \<notin> set [d]) s #
     (case dropWhile (\<lambda>c. c \<notin> set [d]) s of [] \<Rightarrow> [] | _ # r \<Rightarrow> line_fields d r)"
proof (induction s)
  case Nil
  then show ?case by simp
next
  case (Cons c cs)
  then have cd: "c \<noteq> d" by simp
  show ?case
  proof (cases cs)
    case Nil
    then show ?thesis using cd by simp
  next
    case (Cons e es)
    show ?thesis
    proof (cases "e = d")
      case True
      then show ?thesis using cd Cons by simp
    next
      case False
      then show ?thesis using cd Cons Cons.IH by simp
    qed
  qed
qed

lemma tokens_first:
  assumes "dropWhile (\<lambda>c. c \<in> set [d]) s = s1" and "s1 \<noteq> []"
  shows "tokens d s = takeWhile (\<lambda>c. c \<notin> set [d]) s1 #
           tokens d (drop 1 (dropWhile (\<lambda>c. c \<notin> set [d]) s1))"
proof -
  define tw where "tw = takeWhile (\<lambda>c. c \<notin> set [d]) s1"
  define dw where "dw = dropWhile (\<lambda>c. c \<notin> set [d]) s1"
  have hd: "hd s1 \<noteq> d" using assms hd_dropWhile[of "\<lambda>c. c \<in> set [d]" s] by auto
  have tw: "tw \<noteq> []"
    unfolding tw_def using assms(2) hd by (cases s1) auto
  have f: "line_fields d s1 = tw # (case dw of [] \<Rightarrow> [] | _ # r \<Rightarrow> line_fields d r)"
    unfolding tw_def dw_def by (rule fields_token[OF assms(2) hd])
  have rest: "filter (\<lambda>f. f \<noteq> []) (case dw of [] \<Rightarrow> [] | _ # r \<Rightarrow> line_fields d r) = tokens d (drop 1 dw)"
    by (cases dw) (simp_all add: tokens_def)
  have "tokens d s = tokens d s1" using assms(1) tokens_skip[of d s] by simp
  also have "\<dots> = tw # tokens d (drop 1 dw)"
    unfolding tokens_def[of d s1] f using tw rest by simp
  finally show ?thesis unfolding tw_def dw_def .
qed

lemma strtok_r_None: "fst (strtok_r s [d]) = None \<Longrightarrow> tokens d s = []"
  by (auto simp: strtok_r_def Let_def tokens_all_delims split: if_splits)

lemma strtok_r_Some:
  "strtok_r s [d] = (Some t, r) \<Longrightarrow> tokens d s = t # tokens d r \<and> length r < length s"
proof -
  assume a: "strtok_r s [d] = (Some t, r)"
  define s1 where "s1 = dropWhile (\<lambda>c. c \<in> set [d]) s"
  from a have ne: "s1 \<noteq> []" and t: "t = takeWhile (\<lambda>c. c \<notin> set [d]) s1"
    and r: "r = drop 1 (dropWhile (\<lambda>c. c \<notin> set [d]) s1)"
    by (auto simp: strtok_r_def Let_def s1_def split: if_splits)
  have "length (dropWhile (\<lambda>c. c \<notin> set [d]) s1) \<le> length s1"
    by (rule length_dropWhile_le)
  moreover have "0 < length s1" using ne by simp
  ultimately have "length r < length s1" unfolding r by (cases s1) simp_all
  moreover have "length s1 \<le> length s" unfolding s1_def by (rule length_dropWhile_le)
  ultimately show ?thesis using tokens_first[OF s1_def[symmetric] ne] t r by simp
qed

lemma split_pipeline_loop_tokens:
  "split_pipeline_loop (fst (strtok_r s ''|'')) (snd (strtok_r s ''|'')) acc =
     acc @ take (MAX_COMMANDS - length acc) (map trim (tokens (CHR ''|'') s))"
proof (induction "length s" arbitrary: s acc rule: less_induct)
  case less
  show ?case
  proof (cases "fst (strtok_r s ''|'')")
    case None
    then show ?thesis using strtok_r_None[of s "CHR ''|''"]
      by (subst split_pipeline_loop.simps) simp
  next
    case (Some t)
    then obtain r where st: "strtok_r s ''|'' = (Some t, r)" by (cases "strtok_r s ''|''") auto
    from strtok_r_Some[OF st] have tk: "tokens (CHR ''|'') s = t # tokens (CHR ''|'') r"
      and len: "length r < length s" by auto
    show ?thesis
    proof (cases "length acc < MAX_COMMANDS")
      case True
      then obtain k where k: "MAX_COMMANDS - length acc = Suc k" by (cases "MAX_COMMANDS - length acc") auto
      have "split_pipeline_loop (Some t) r acc =
            split_pipeline_loop (fst (strtok_r r ''|'')) (snd (strtok_r r ''|'')) (acc @ [trim t])"
        using True by (subst split_pipeline_loop.simps) (simp add: case_prod_beta)
      also have "\<dots> = (acc @ [trim t]) @ take (MAX_COMMANDS - length (acc @ [trim t])) (map trim (tokens (CHR ''|'') r))"
        by (rule less[OF len])
      also have "\<dots> = acc @ take (MAX_COMMANDS - length acc) (map trim (tokens (CHR ''|'') s))"
      proof -
        have "MAX_COMMANDS - Suc (length acc) = k" using k by arith
        then show ?thesis using k tk by simp
      qed
      finally show ?thesis using st by simp
    next
      case False
      then show ?thesis using st by (subst split_pipeline_loop.simps) simp
    qed
  qed
qed

lemma split_pipeline_tokens:
  "split_pipeline line = take MAX_COMMANDS (map trim (tokens (CHR ''|'') line))"
  using split_pipeline_loop_tokens[of line "[]"]
  by (simp add: split_pipeline_def case_prod_beta)

lemma blank_trim: "\<forall>c\<in>set f. is_blank c \<Longrightarrow> spec_trim f = []"
  by (auto simp: spec_trim_def dest: set_dropWhileD)

lemma parse_args_Nil: "parse_args [] = []"
  by (simp add: parse_args_def strtok_r_def parse_args_loop.simps)

text \<open>
  C1, as amended. \<open>split_pipeline\<close> returns the trimmed non-empty fields of the line, at
  most \<open>MAX_COMMANDS\<close> of them: a field of length zero (two adjacent delimiters, a
  delimiter at the start or at the end of the line) is skipped by \<open>strtok_r\<close> and takes
  no position. When no field has length zero and there are at most \<open>MAX_COMMANDS\<close>
  fields, the result is the specification's: every stage keeps its position, and a
  stage of blanks only (as in \<open>a| |b\<close>) is passed on as the empty string, from which
  \<open>parse_args\<close> yields the empty argument vector.
\<close>

theorem split_pipeline_stages:
  "split_pipeline line =
     take MAX_COMMANDS (map spec_trim (filter (\<lambda>f. f \<noteq> []) (line_fields (CHR ''|'') line)))
   \<and> ((\<forall>f\<in>set (line_fields (CHR ''|'') line). f \<noteq> []) \<and> length (line_fields (CHR ''|'') line) \<le> MAX_COMMANDS
        \<longrightarrow> split_pipeline line = spec_split_pipeline line)
   \<and> ((\<forall>c\<in>set f. is_blank c) \<longrightarrow> spec_trim f = [] \<and> parse_args (spec_trim f) = [])"
proof -
  have eq: "map trim = map spec_trim" by (rule ext) (simp add: trim_spec)
  have a: "split_pipeline line =
     take MAX_COMMANDS (map spec_trim (filter (\<lambda>f. f \<noteq> []) (line_fields (CHR ''|'') line)))"
    using split_pipeline_tokens[of line] by (simp add: tokens_def eq)
  have b: "(\<forall>f\<in>set (line_fields (CHR ''|'') line). f \<noteq> []) \<and> length (line_fields (CHR ''|'') line) \<le> MAX_COMMANDS
        \<longrightarrow> split_pipeline line = spec_split_pipeline line"
  proof
    assume h: "(\<forall>f\<in>set (line_fields (CHR ''|'') line). f \<noteq> []) \<and> length (line_fields (CHR ''|'') line) \<le> MAX_COMMANDS"
    then have "filter (\<lambda>f. f \<noteq> []) (line_fields (CHR ''|'') line) = line_fields (CHR ''|'') line"
      by (simp add: filter_id_conv)
    then show "split_pipeline line = spec_split_pipeline line"
      using a h by (simp add: spec_split_pipeline_def)
  qed
  have c: "(\<forall>c\<in>set f. is_blank c) \<longrightarrow> spec_trim f = [] \<and> parse_args (spec_trim f) = []"
    by (simp add: blank_trim parse_args_Nil)
  from a b c show ?thesis by blast
qed

theorem split_pipeline_stages_witness:
  "split_pipeline ''a| |b'' = [''a'', [], ''b''] \<and> parse_args (spec_trim '' '') = []"
  using split_pipeline_stages[of "''a| |b''" "'' ''"]
  by (simp add: spec_trim_def is_blank_def MAX_COMMANDS_def)

text \<open>
  C1 as stated fails on \<open>a||b\<close>: the specification's splitting keeps the empty middle
  stage, the code returns two stages.
\<close>

theorem split_pipeline_drops_empty_stage:
  "split_pipeline ''a||b'' = [''a'', ''b''] \<and>
   spec_split_pipeline ''a||b'' = [''a'', [], ''b''] \<and>
   split_pipeline ''a||b'' \<noteq> spec_split_pipeline ''a||b''"
  by (simp add: split_pipeline_tokens tokens_def trim_spec spec_split_pipeline_def
      spec_trim_def is_blank_def MAX_COMMANDS_def)

section \<open>execute\_pipeline: what a call does\<close>

lemma spawn_loop_closed:
  assumes "\<forall>j. i \<le> j \<and> j < n \<longrightarrow> env_fork env j \<noteq> - 1 \<and> (j < n - 1 \<longrightarrow> env_pipe env j \<noteq> None)"
    and "i < n \<longrightarrow> in_fd = in_fd_at env i"
  shows "spawn_loop env commands n i in_fd pids s =
     Inr (pids @ map (env_fork env) [i..<n],
          s\<lparr>trace := trace s @ concat (map (spawn_events env n) [i..<n]),
            procs := procs s @ map (spawned_child env commands n) [i..<n]\<rparr>)"
  using assms
proof (induction "n - i" arbitrary: i in_fd pids s)
  case 0
  then have "\<not> i < n" by simp
  then show ?case by (subst spawn_loop.simps) simp
next
  case (Suc k)
  then have lt: "i < n" and k: "k = n - Suc i" by auto
  have fk: "env_fork env i \<noteq> - 1" using Suc.prems(1) lt by auto
  have infd: "in_fd = in_fd_at env i" using Suc.prems(2) lt by simp
  have upt: "[i..<n] = i # [Suc i..<n]" using lt by (simp add: upt_conv_Cons)
  show ?case
  proof (cases "i < n - 1")
    case True
    then have il: "i < n - 1" by simp
    then obtain r w where pw: "env_pipe env i = Some (r, w)" using Suc.prems(1) lt by fastforce
    have next_in: "Suc i < n \<longrightarrow> r = in_fd_at env (Suc i)" by (simp add: in_fd_at_def pw)
    have rest: "\<forall>j. Suc i \<le> j \<and> j < n \<longrightarrow> env_fork env j \<noteq> - 1 \<and> (j < n - 1 \<longrightarrow> env_pipe env j \<noteq> None)"
      using Suc.prems(1) by auto
    note IH = Suc.hyps(1)[OF k rest next_in]
    show ?thesis
      using il lt
      apply (subst spawn_loop.simps)
      apply (simp add: pw fk Let_def IH upt infd)
      apply (simp add: spawn_events_def spawned_child_def pipefd_at_def pw emit_def)
      done
  next
    case False
    then have ni: "\<not> i < n - 1" by simp
    have n_eq: "n = Suc i" using lt ni by arith
    have sl: "\<And>f p t. spawn_loop env commands (Suc i) (Suc i) f p t = Inr (p, t)"
      by (subst spawn_loop.simps) simp
    show ?thesis
      unfolding n_eq
      apply (subst spawn_loop.simps)
      apply (simp add: fk Let_def sl infd[unfolded n_eq])
      apply (simp add: spawn_events_def spawned_child_def pipefd_at_def emit_def)
      done
  qed
qed

lemma trace_emit [simp]: "trace (emit e s) = trace s @ [e]"
  and procs_emit [simp]: "procs (emit e s) = procs s"
  and files_emit [simp]: "files (emit e s) = files s"
  and current_child_emit [simp]: "current_child (emit e s) = current_child s"
  by (simp_all add: emit_def)

lemma set_current_child_simps [simp]:
  "trace (set_current_child p s) = trace s @ [EvSetFg p]"
  "procs (set_current_child p s) = procs s"
  "files (set_current_child p s) = files s"
  "current_child (set_current_child p s) = p"
  by (simp_all add: set_current_child_def)

lemma wait_loop_closed:
  "wait_loop env pids status s =
     (foldl (\<lambda>st p. case env_waitpid env p of Reaped x \<Rightarrow> x | _ \<Rightarrow> st) status pids,
      s\<lparr>trace := trace s @ concat (map (\<lambda>p. [EvSetFg p, EvWait p]) pids),
        current_child := (if pids = [] then current_child s else last pids)\<rparr>)"
proof (induction pids arbitrary: status s)
  case Nil
  then show ?case by simp
next
  case (Cons p ps)
  show ?case
    by (simp add: Cons.IH emit_def set_current_child_def)
qed

lemma wait_status_last:
  "pids \<noteq> [] \<Longrightarrow> env_waitpid env (last pids) = Reaped st \<Longrightarrow>
   foldl (\<lambda>st p. case env_waitpid env p of Reaped x \<Rightarrow> x | _ \<Rightarrow> st) status pids = st"
  by (induction pids rule: rev_induct) simp_all

lemma execute_pipeline_closed:
  assumes "spawn_ok env n"
  shows "execute_pipeline env commands n s =
     (foldl (\<lambda>st p. case env_waitpid env p of Reaped x \<Rightarrow> x | _ \<Rightarrow> st) 0 (map (env_fork env) [0..<n]),
      s\<lparr>trace := trace s @ concat (map (spawn_events env n) [0..<n]) @
                  concat (map (\<lambda>p. [EvSetFg p, EvWait p]) (map (env_fork env) [0..<n])) @ [EvSetFg 0],
        procs := procs s @ map (spawned_child env commands n) [0..<n],
        current_child := 0\<rparr>)"
proof -
  have a: "\<forall>j. 0 \<le> j \<and> j < n \<longrightarrow> env_fork env j \<noteq> - 1 \<and> (j < n - 1 \<longrightarrow> env_pipe env j \<noteq> None)"
    using assms by (simp add: spawn_ok_def)
  have b: "0 < n \<longrightarrow> STDIN_FILENO = in_fd_at env 0" by (simp add: in_fd_at_def)
  show ?thesis
    unfolding execute_pipeline_def spawn_loop_closed[OF a b]
    by (simp add: wait_loop_closed set_current_child_def emit_def)
qed

lemma fd_events_append [simp]: "fd_events (a @ b) = fd_events a @ fd_events b"
  and fg_events_append [simp]: "fg_events (a @ b) = fg_events a @ fg_events b"
  and wait_events_append [simp]: "wait_events (a @ b) = wait_events a @ wait_events b"
  and created_fds_append [simp]: "created_fds (a @ b) = created_fds a @ created_fds b"
  and closed_fds_append [simp]: "closed_fds (a @ b) = closed_fds a @ closed_fds b"
  by (simp_all add: fd_events_def fg_events_def wait_events_def created_fds_def closed_fds_def)

lemma fd_events_spawn: "fd_events (concat (map (spawn_events env n) xs)) = concat (map (spawn_events env n) xs)"
  by (induction xs) (simp_all add: fd_events_def spawn_events_def is_fd_event_def)

lemma fg_events_spawn: "fg_events (concat (map (spawn_events env n) xs)) = []"
  by (induction xs) (simp_all add: fg_events_def spawn_events_def is_fg_event_def)

lemma fd_events_waits: "fd_events (concat (map (\<lambda>p. [EvSetFg p, EvWait p]) ps)) = []"
  by (induction ps) (simp_all add: fd_events_def is_fd_event_def)

lemma fg_events_waits:
  "fg_events (concat (map (\<lambda>p. [EvSetFg p, EvWait p]) ps)) = concat (map (\<lambda>p. [EvSetFg p, EvWait p]) ps)"
  by (induction ps) (simp_all add: fg_events_def is_fg_event_def)

lemma spawn_events_stage:
  assumes "i < n" and "\<forall>j. j < n - 1 \<longrightarrow> read_end env j \<noteq> STDIN_FILENO"
  shows "spawn_events env n i = stage_fd_events env n i"
proof (cases "i = 0")
  case True
  then show ?thesis
    by (simp add: spawn_events_def stage_fd_events_def in_fd_at_def pipefd_at_def read_end_def write_end_def)
next
  case False
  then have "i - 1 < n - 1" using assms(1) by arith
  then have "read_end env (i - 1) \<noteq> STDIN_FILENO" using assms(2) by blast
  then show ?thesis using False
    by (simp add: spawn_events_def stage_fd_events_def in_fd_at_def pipefd_at_def read_end_def write_end_def)
qed

lemma spawn_events_stages:
  assumes "\<forall>j. j < n - 1 \<longrightarrow> read_end env j \<noteq> STDIN_FILENO"
  shows "map (spawn_events env n) [0..<n] = map (stage_fd_events env n) [0..<n]"
  using spawn_events_stage[OF _ assms] by simp

lemma stage_fds_balance:
  "m \<le> n \<Longrightarrow>
   mset (closed_fds (concat (map (stage_fd_events env n) [0..<m]))) +
     (if 0 < m \<and> m \<le> n - 1 then {#read_end env (m - 1)#} else {#}) =
   mset (created_fds (concat (map (stage_fd_events env n) [0..<m])))"
proof (induction m)
  case 0
  then show ?case by (simp add: closed_fds_def created_fds_def)
next
  case (Suc m)
  then have mn: "m < n" and le: "m \<le> n - 1" by auto
  have IH: "mset (closed_fds (concat (map (stage_fd_events env n) [0..<m]))) +
     (if 0 < m then {#read_end env (m - 1)#} else {#}) =
     mset (created_fds (concat (map (stage_fd_events env n) [0..<m])))"
    using Suc.IH mn le by simp
  have cl: "mset (closed_fds (stage_fd_events env n m)) =
      (if 0 < m then {#read_end env (m - 1)#} else {#}) + (if m < n - 1 then {#write_end env m#} else {#})"
    by (simp add: stage_fd_events_def closed_fds_def)
  have cr: "mset (created_fds (stage_fd_events env n m)) =
      (if m < n - 1 then {#read_end env m, write_end env m#} else {#})"
    by (simp add: stage_fd_events_def created_fds_def)
  have c: "(Suc m \<le> n - 1) = (m < n - 1)" by arith
  show ?case
    using IH[symmetric] by (simp add: cl cr c)
qed

lemma stage_fds_all_closed:
  "mset (closed_fds (concat (map (stage_fd_events env n) [0..<n]))) =
   mset (created_fds (concat (map (stage_fd_events env n) [0..<n])))"
  using stage_fds_balance[of n n env] by (cases n) simp_all

lemma fds_waits:
  "closed_fds (concat (map (\<lambda>p. [EvSetFg p, EvWait p]) ps)) = []"
  "created_fds (concat (map (\<lambda>p. [EvSetFg p, EvWait p]) ps)) = []"
  by (induction ps) (simp_all add: closed_fds_def created_fds_def)

lemma new_events_closed:
  assumes "spawn_ok env n"
  shows "new_events s (snd (execute_pipeline env commands n s)) =
     concat (map (spawn_events env n) [0..<n]) @
     concat (map (\<lambda>p. [EvSetFg p, EvWait p]) (map (env_fork env) [0..<n])) @ [EvSetFg 0]"
  by (simp add: execute_pipeline_closed[OF assms] new_events_def)

lemma stage_child_takes_ends:
  assumes "i < n" and "\<forall>j. j < n - 1 \<longrightarrow> read_end env j \<noteq> STDIN_FILENO"
  shows "take (length (stage_child_fd_events env n i)) (c_events (snd (spawned_child env commands n i))) =
         stage_child_fd_events env n i"
proof (cases "i = 0")
  case True
  then show ?thesis
    by (simp add: spawned_child_def stage_child_def stage_child_fd_events_def in_fd_at_def
          pipefd_at_def read_end_def write_end_def Let_def split: option.splits)
next
  case False
  then have "i - 1 < n - 1" using assms(1) by arith
  then have "read_end env (i - 1) \<noteq> STDIN_FILENO" using assms(2) by blast
  then show ?thesis using False
    by (simp add: spawned_child_def stage_child_def stage_child_fd_events_def in_fd_at_def
          pipefd_at_def read_end_def write_end_def Let_def split: option.splits)
qed

text \<open>
  C2, as amended. When all \<open>n\<close> stages are spawned (and no \<open>pipe\<close> hands out descriptor
  0 as its read end: the shell holds descriptor 0 open as its standard input, and the
  code takes \<open>in_fd == STDIN_FILENO\<close> to mean that there is no read end to close), the
  descriptor calls of the parent are, stage by stage: create the channel to the next
  stage, fork the stage, close the read end of the channel from the previous stage,
  close the write end of the channel to the next stage. So the write end of the channel between \<open>i\<close> and \<open>i+1\<close> is closed
  right after forking process \<open>i\<close>, before process \<open>i+1\<close> is forked, and the read end
  right after forking process \<open>i+1\<close>. Every descriptor the call created is closed once,
  and each after the fork of the stage whose child takes it over: the child forked as
  stage \<open>i\<close> makes the read end of the channel from stage \<open>i-1\<close> its standard input and
  the write end of the channel to stage \<open>i+1\<close> its standard output.
\<close>

theorem execute_pipeline_descriptor_order:
  assumes "spawn_ok env n" and "\<forall>j. j < n - 1 \<longrightarrow> read_end env j \<noteq> STDIN_FILENO"
    and "n \<le> MAX_COMMANDS"
  shows "fd_events (new_events s (snd (execute_pipeline env commands n s))) =
           concat (map (stage_fd_events env n) [0..<n]) \<and>
         mset (closed_fds (new_events s (snd (execute_pipeline env commands n s)))) =
           mset (created_fds (new_events s (snd (execute_pipeline env commands n s)))) \<and>
         (\<forall>i<n.
            fst (procs (snd (execute_pipeline env commands n s)) ! (length (procs s) + i)) =
              env_fork env i \<and>
            take (length (stage_child_fd_events env n i))
              (c_events (snd (procs (snd (execute_pipeline env commands n s)) ! (length (procs s) + i)))) =
              stage_child_fd_events env n i)"
proof -
  let ?new = "new_events s (snd (execute_pipeline env commands n s))"
  let ?stages = "concat (map (stage_fd_events env n) [0..<n])"
  let ?waits = "concat (map (\<lambda>p. [EvSetFg p, EvWait p]) (map (env_fork env) [0..<n]))"
  have new: "?new = ?stages @ ?waits @ [EvSetFg 0]"
    using new_events_closed[OF assms(1)] spawn_events_stages[OF assms(2)] by simp
  have fs: "fd_events ?stages = ?stages"
    using fd_events_spawn[of env n "[0..<n]"] spawn_events_stages[OF assms(2)] by simp
  have a: "fd_events ?new = ?stages"
    unfolding new by (simp add: fs fd_events_waits) (simp add: fd_events_def is_fd_event_def)
  have cl: "closed_fds ?new = closed_fds ?stages"
    by (simp only: new closed_fds_append fds_waits) (simp add: closed_fds_def)
  have cr: "created_fds ?new = created_fds ?stages"
    by (simp only: new created_fds_append fds_waits) (simp add: created_fds_def)
  have b: "mset (closed_fds ?new) = mset (created_fds ?new)"
    unfolding cl cr by (rule stage_fds_all_closed)
  have c: "\<forall>i<n.
            fst (procs (snd (execute_pipeline env commands n s)) ! (length (procs s) + i)) =
              env_fork env i \<and>
            take (length (stage_child_fd_events env n i))
              (c_events (snd (procs (snd (execute_pipeline env commands n s)) ! (length (procs s) + i)))) =
              stage_child_fd_events env n i"
  proof (intro allI impI)
    fix i assume i: "i < n"
    have p: "procs (snd (execute_pipeline env commands n s)) ! (length (procs s) + i) =
             spawned_child env commands n i"
      using i by (simp add: execute_pipeline_closed[OF assms(1)] nth_append)
    show "fst (procs (snd (execute_pipeline env commands n s)) ! (length (procs s) + i)) =
              env_fork env i \<and>
            take (length (stage_child_fd_events env n i))
              (c_events (snd (procs (snd (execute_pipeline env commands n s)) ! (length (procs s) + i)))) =
              stage_child_fd_events env n i"
      unfolding p using stage_child_takes_ends[OF i assms(2)]
      by (simp add: spawned_child_def)
  qed
  from a b c show ?thesis by blast
qed

lemma spawn_ok_env0: "spawn_ok env0 2"
  by (simp add: spawn_ok_def env0_def)

text \<open>
  The theorem on a pipeline of two stages: the parent's calls, and the first calls of the
  two children.
\<close>

theorem execute_pipeline_descriptor_order_witness:
  "fd_events (new_events shell0 (snd (execute_pipeline env0 [''ls'', ''wc''] 2 shell0))) =
     [EvPipe 3 4, EvFork 100, EvClose 4, EvFork 101, EvClose 3] \<and>
   mset (closed_fds (new_events shell0 (snd (execute_pipeline env0 [''ls'', ''wc''] 2 shell0)))) =
     mset (created_fds (new_events shell0 (snd (execute_pipeline env0 [''ls'', ''wc''] 2 shell0)))) \<and>
   fst (procs (snd (execute_pipeline env0 [''ls'', ''wc''] 2 shell0)) ! 0) = 100 \<and>
   take 3 (c_events (snd (procs (snd (execute_pipeline env0 [''ls'', ''wc''] 2 shell0)) ! 0))) =
     [EvClose 3, EvDup2 4 STDOUT_FILENO, EvClose 4] \<and>
   fst (procs (snd (execute_pipeline env0 [''ls'', ''wc''] 2 shell0)) ! 1) = 101 \<and>
   take 2 (c_events (snd (procs (snd (execute_pipeline env0 [''ls'', ''wc''] 2 shell0)) ! 1))) =
     [EvDup2 3 STDIN_FILENO, EvClose 3]"
proof -
  have h1: "spawn_ok env0 2" by (simp add: spawn_ok_def env0_def)
  have h2: "\<forall>j. j < 2 - 1 \<longrightarrow> read_end env0 j \<noteq> STDIN_FILENO"
    by (simp add: read_end_def env0_def STDIN_FILENO_def)
  have h3: "2 \<le> MAX_COMMANDS" by (simp add: MAX_COMMANDS_def)
  have u: "[0..<2] = [0, 1]" by (simp add: upt_rec)
  have l: "length (procs shell0) = 0" by (simp add: shell0_def)
  have a2: "\<forall>i<2. P i \<Longrightarrow> P 0 \<and> P (Suc 0)" for P :: "nat \<Rightarrow> bool" by simp
  note t = execute_pipeline_descriptor_order[OF h1 h2 h3, of shell0 "[''ls'', ''wc'']"]
  from t have t3: "\<forall>i<2.
            fst (procs (snd (execute_pipeline env0 [''ls'', ''wc''] 2 shell0)) ! (length (procs shell0) + i)) =
              env_fork env0 i \<and>
            take (length (stage_child_fd_events env0 2 i))
              (c_events (snd (procs (snd (execute_pipeline env0 [''ls'', ''wc''] 2 shell0)) ! (length (procs shell0) + i)))) =
              stage_child_fd_events env0 2 i" by blast
  have s0: "stage_child_fd_events env0 2 0 = [EvClose 3, EvDup2 4 STDOUT_FILENO, EvClose 4]"
    and s1: "stage_child_fd_events env0 2 (Suc 0) = [EvDup2 3 STDIN_FILENO, EvClose 3]"
    by (simp_all add: stage_child_fd_events_def read_end_def write_end_def env0_def)
  have f: "env_fork env0 0 = 100" "env_fork env0 (Suc 0) = 101" by (simp_all add: env0_def)
  have c: "fst (procs (snd (execute_pipeline env0 [''ls'', ''wc''] 2 shell0)) ! 0) = 100 \<and>
   take 3 (c_events (snd (procs (snd (execute_pipeline env0 [''ls'', ''wc''] 2 shell0)) ! 0))) =
     [EvClose 3, EvDup2 4 STDOUT_FILENO, EvClose 4] \<and>
   fst (procs (snd (execute_pipeline env0 [''ls'', ''wc''] 2 shell0)) ! 1) = 101 \<and>
   take 2 (c_events (snd (procs (snd (execute_pipeline env0 [''ls'', ''wc''] 2 shell0)) ! 1))) =
     [EvDup2 3 STDIN_FILENO, EvClose 3]"
    using a2[OF t3] unfolding l s0 s1 f by (simp add: eval_nat_numeral)
  have ab: "fd_events (new_events shell0 (snd (execute_pipeline env0 [''ls'', ''wc''] 2 shell0))) =
     [EvPipe 3 4, EvFork 100, EvClose 4, EvFork 101, EvClose 3] \<and>
   mset (closed_fds (new_events shell0 (snd (execute_pipeline env0 [''ls'', ''wc''] 2 shell0)))) =
     mset (created_fds (new_events shell0 (snd (execute_pipeline env0 [''ls'', ''wc''] 2 shell0))))"
    using t by (simp add: u stage_fd_events_def read_end_def write_end_def env0_def)
  from ab c show ?thesis by blast
qed

lemma sample_trace:
  "trace (snd (execute_pipeline env0 [''ls'', ''wc''] 2 shell0)) =
     [EvPipe 3 4, EvFork 100, EvClose 4, EvFork 101, EvClose 3,
      EvSetFg 100, EvWait 100, EvSetFg 101, EvWait 101, EvSetFg 0]"
proof -
  have u: "[0..<2] = [0, 1]" by (simp add: upt_rec)
  show ?thesis
    unfolding execute_pipeline_closed[OF spawn_ok_env0]
    by (simp add: u shell0_def spawn_events_def pipefd_at_def in_fd_at_def env0_def STDIN_FILENO_def)
qed

text \<open>
  C2 as stated fails on a pipeline of two stages: the write end (descriptor 4) of the
  channel between stages 0 and 1 is closed before process 1 (101) is forked, and never
  after.
\<close>

theorem write_end_closed_before_next_fork:
  "trace (snd (execute_pipeline env0 [''ls'', ''wc''] 2 shell0)) =
     [EvPipe 3 4, EvFork 100, EvClose 4, EvFork 101, EvClose 3,
      EvSetFg 100, EvWait 100, EvSetFg 101, EvWait 101, EvSetFg 0] \<and>
   write_end env0 0 = 4 \<and> env_fork env0 1 = 101 \<and>
   \<not> occurs_after (EvFork 101) (EvClose 4) (trace (snd (execute_pipeline env0 [''ls'', ''wc''] 2 shell0)))"
  unfolding sample_trace
  by (simp add: occurs_after_def write_end_def env0_def)

lemma spawn_loop_slot:
  "spawn_loop env commands n i in_fd pids s = Inl s1 \<Longrightarrow>
   (\<exists>X. trace s1 = trace s @ X \<and> fg_events X = []) \<and> current_child s1 = current_child s"
proof (induction "n - i" arbitrary: i in_fd pids s)
  case 0
  then have "\<not> i < n" by simp
  then have "spawn_loop env commands n i in_fd pids s = Inr (pids, s)"
    by (subst spawn_loop.simps) simp
  with "0.prems" show ?case by simp
next
  case (Suc k)
  then have lt: "i < n" and k: "k = n - Suc i" by auto
  define pr where "pr = (if i < n - 1 then env_pipe env i else Some (- 1, - 1))"
  show ?case
  proof (cases pr)
    case None
    then have "spawn_loop env commands n i in_fd pids s = Inl (emit (EvPerror ''pipe'') s)"
      using lt unfolding pr_def by (subst spawn_loop.simps) (auto split: if_splits)
    with Suc.prems have "s1 = emit (EvPerror ''pipe'') s" by simp
    then show ?thesis by (simp add: fg_events_def is_fg_event_def)
  next
    case (Some pipefd)
    define t1 where "t1 = (if i < n - 1 then emit (EvPipe (fst pipefd) (snd pipefd)) s else s)"
    have t1: "\<exists>X. trace t1 = trace s @ X \<and> fg_events X = []" "current_child t1 = current_child s"
      by (auto simp: t1_def fg_events_def is_fg_event_def)
    from t1 obtain X where X: "trace t1 = trace s @ X" "fg_events X = []" by blast
    show ?thesis
    proof (cases "env_fork env i = - 1")
      case True
      then have "spawn_loop env commands n i in_fd pids s = Inl (emit (EvPerror ''fork'') t1)"
        using lt Some unfolding pr_def
        by (subst spawn_loop.simps) (auto simp: t1_def Let_def split: if_splits)
      with Suc.prems have s1: "s1 = emit (EvPerror ''fork'') t1" by simp
      have "trace s1 = trace s @ (X @ [EvPerror ''fork''])" by (simp add: s1 X)
      moreover have "fg_events (X @ [EvPerror ''fork'']) = []"
        using X(2) by (simp add: fg_events_def is_fg_event_def)
      ultimately show ?thesis using t1(2) s1 by auto
    next
      case False
      define t4 where "t4 =
         (let s2 = (emit (EvFork (env_fork env i)) t1)
                     \<lparr>procs := procs t1 @ [(env_fork env i, stage_child env commands n i in_fd pipefd)]\<rparr>;
              s3 = (if in_fd \<noteq> STDIN_FILENO then emit (EvClose in_fd) s2 else s2)
          in (if i < n - 1 then emit (EvClose (snd pipefd)) s3 else s3))"
      have t4: "\<exists>Y. trace t4 = trace s @ Y \<and> fg_events Y = []" "current_child t4 = current_child s"
        using X t1(2) by (auto simp: t4_def Let_def emit_def fg_events_def is_fg_event_def)
      have "spawn_loop env commands n i in_fd pids s =
            spawn_loop env commands n (i + 1) (if i < n - 1 then fst pipefd else in_fd)
               (pids @ [env_fork env i]) t4"
        using lt Some False unfolding pr_def
        by (subst spawn_loop.simps) (auto simp: t1_def t4_def Let_def split: if_splits)
      with Suc.prems have rec: "spawn_loop env commands n (Suc i) (if i < n - 1 then fst pipefd else in_fd)
               (pids @ [env_fork env i]) t4 = Inl s1" by simp
      from Suc.hyps(1)[OF k rec] obtain Z where
        Z: "trace s1 = trace t4 @ Z" "fg_events Z = []" and cc: "current_child s1 = current_child t4"
        by blast
      from t4 obtain Y where Y: "trace t4 = trace s @ Y" "fg_events Y = []" by blast
      have "trace s1 = trace s @ (Y @ Z)" by (simp add: Z Y)
      moreover have "fg_events (Y @ Z) = []" by (simp add: Z Y)
      ultimately show ?thesis using cc t4(2) by auto
    qed
  qed
qed

lemma spawn_loop_fails:
  "\<exists>j. i \<le> j \<and> j < n \<and> (env_fork env j = - 1 \<or> (j < n - 1 \<and> env_pipe env j = None)) \<Longrightarrow>
   \<exists>s1. spawn_loop env commands n i in_fd pids s = Inl s1"
proof (induction "n - i" arbitrary: i in_fd pids s)
  case 0
  then show ?case by auto
next
  case (Suc k)
  then have lt: "i < n" and k: "k = n - Suc i" by auto
  show ?case
  proof (cases "i < n - 1 \<and> env_pipe env i = None")
    case True
    then show ?thesis using lt by (subst spawn_loop.simps) simp
  next
    case np: False
    show ?thesis
    proof (cases "env_fork env i = - 1")
      case True
      then show ?thesis using lt np
        by (subst spawn_loop.simps) (auto simp: Let_def split: option.splits)
    next
      case False
      from Suc.prems obtain j where j: "i \<le> j" "j < n"
        "env_fork env j = - 1 \<or> (j < n - 1 \<and> env_pipe env j = None)" by blast
      with np False have "j \<noteq> i" by auto
      with j have "\<exists>j. Suc i \<le> j \<and> j < n \<and> (env_fork env j = - 1 \<or> (j < n - 1 \<and> env_pipe env j = None))"
        by (intro exI[of _ j]) auto
      note IH = Suc.hyps(1)[OF k this]
      show ?thesis using lt np False
        by (subst spawn_loop.simps) (auto simp: Let_def IH split: option.splits)
    qed
  qed
qed

lemma not_spawn_ok_fails:
  assumes "\<not> spawn_ok env n"
  shows "\<exists>s1. spawn_loop env commands n 0 in_fd pids s = Inl s1"
proof -
  from assms obtain i where i: "i < n"
    "\<not> (env_fork env i \<noteq> - 1 \<and> (i < n - 1 \<longrightarrow> env_pipe env i \<noteq> None))"
    unfolding spawn_ok_def by blast
  then have "0 \<le> i \<and> i < n \<and> (env_fork env i = - 1 \<or> (i < n - 1 \<and> env_pipe env i = None))"
    by blast
  then have "\<exists>j. 0 \<le> j \<and> j < n \<and> (env_fork env j = - 1 \<or> (j < n - 1 \<and> env_pipe env j = None))"
    by (rule exI)
  then show ?thesis by (rule spawn_loop_fails)
qed

text \<open>
  C3, as amended. When all stages are spawned, the writes to the Foreground Slot and
  the waits are exactly: for each stage in spawn order, set the slot to its process
  identifier, wait for it; then, after the last wait, clear the slot. Between two waits
  the slot is not cleared: it goes from one stage's identifier to the next one's. The
  spawning itself does not touch the slot, so it holds on return what it held on entry
  when a \<open>pipe\<close> or \<open>fork\<close> fails, and "none" otherwise.
\<close>

theorem execute_pipeline_slot:
  assumes "n \<le> MAX_COMMANDS"
  shows
  "(spawn_ok env n \<longrightarrow>
      fg_events (new_events s (snd (execute_pipeline env commands n s))) =
        concat (map (\<lambda>i. [EvSetFg (env_fork env i), EvWait (env_fork env i)]) [0..<n]) @ [EvSetFg 0] \<and>
      current_child (snd (execute_pipeline env commands n s)) = 0) \<and>
   (\<not> spawn_ok env n \<longrightarrow>
      fst (execute_pipeline env commands n s) = - 1 \<and>
      fg_events (new_events s (snd (execute_pipeline env commands n s))) = [] \<and>
      current_child (snd (execute_pipeline env commands n s)) = current_child s)"
proof (intro conjI impI)
  assume ok: "spawn_ok env n"
  have m: "concat (map (\<lambda>p. [EvSetFg p, EvWait p]) (map (env_fork env) [0..<n])) =
        concat (map (\<lambda>i. [EvSetFg (env_fork env i), EvWait (env_fork env i)]) [0..<n])"
    by (simp add: comp_def)
  show "fg_events (new_events s (snd (execute_pipeline env commands n s))) =
        concat (map (\<lambda>i. [EvSetFg (env_fork env i), EvWait (env_fork env i)]) [0..<n]) @ [EvSetFg 0]"
    unfolding new_events_closed[OF ok] fg_events_append fg_events_spawn fg_events_waits m
    by (simp add: fg_events_def is_fg_event_def)
  show "current_child (snd (execute_pipeline env commands n s)) = 0"
    by (simp add: execute_pipeline_closed[OF ok])
next
  assume "\<not> spawn_ok env n"
  then obtain s1 where f: "spawn_loop env commands n 0 STDIN_FILENO [] s = Inl s1"
    using not_spawn_ok_fails by blast
  have e: "execute_pipeline env commands n s = (- 1, s1)"
    by (simp add: execute_pipeline_def f)
  show "fst (execute_pipeline env commands n s) = - 1" by (simp add: e)
  show "fg_events (new_events s (snd (execute_pipeline env commands n s))) = []"
    using spawn_loop_slot[OF f] by (auto simp: e new_events_def)
  show "current_child (snd (execute_pipeline env commands n s)) = current_child s"
    using spawn_loop_slot[OF f] by (simp add: e)
qed

text \<open>
  The theorem on a pipeline of two stages, spawned and not.
\<close>

theorem execute_pipeline_slot_witness:
  "fg_events (new_events shell0 (snd (execute_pipeline env0 [''ls'', ''wc''] 2 shell0))) =
     [EvSetFg 100, EvWait 100, EvSetFg 101, EvWait 101, EvSetFg 0] \<and>
   current_child (snd (execute_pipeline env0 [''ls'', ''wc''] 2 shell0)) = 0 \<and>
   fst (execute_pipeline env_fork_fails [''ls'', ''wc''] 2 shell0) = - 1 \<and>
   fg_events (new_events shell0 (snd (execute_pipeline env_fork_fails [''ls'', ''wc''] 2 shell0))) = [] \<and>
   current_child (snd (execute_pipeline env_fork_fails [''ls'', ''wc''] 2 shell0)) = 0"
proof -
  have h1: "spawn_ok env0 2" by (simp add: spawn_ok_def env0_def)
  have h2: "\<not> spawn_ok env_fork_fails 2"
    by (auto simp: spawn_ok_def env_fork_fails_def intro!: exI[of _ 1])
  have u: "[0..<2] = [0, 1]" by (simp add: upt_rec)
  have c: "current_child shell0 = 0" by (simp add: shell0_def)
  have h3: "2 \<le> MAX_COMMANDS" by (simp add: MAX_COMMANDS_def)
  show ?thesis
    using execute_pipeline_slot[OF h3, of env0 shell0 "[''ls'', ''wc'']"]
          execute_pipeline_slot[OF h3, of env_fork_fails shell0 "[''ls'', ''wc'']"] h1 h2 c
    by (simp add: u) (simp add: env0_def)
qed

text \<open>
  C3 as stated fails on a pipeline of two stages: what follows the return of the wait
  for the first stage (100) is not the clearing of the slot but the assignment of the
  second stage's identifier (101).
\<close>

theorem slot_not_cleared_between_waits:
  "trace (snd (execute_pipeline env0 [''ls'', ''wc''] 2 shell0)) =
     [EvPipe 3 4, EvFork 100, EvClose 4, EvFork 101, EvClose 3,
      EvSetFg 100, EvWait 100, EvSetFg 101, EvWait 101, EvSetFg 0] \<and>
   next_event (EvWait 100) (trace (snd (execute_pipeline env0 [''ls'', ''wc''] 2 shell0))) =
     Some (EvSetFg 101) \<and>
   next_event (EvWait 100) (trace (snd (execute_pipeline env0 [''ls'', ''wc''] 2 shell0))) \<noteq>
     Some (EvSetFg 0)"
  unfolding sample_trace
  by (simp add: next_event_def)

lemma wait_status_none:
  "\<forall>p\<in>set ps. \<forall>x. env_waitpid env p \<noteq> Reaped x \<Longrightarrow>
   foldl (\<lambda>st p. case env_waitpid env p of Reaped x \<Rightarrow> x | _ \<Rightarrow> st) status ps = status"
  by (induction ps arbitrary: status) (auto split: wait_result.splits)

lemma wait_status_latest:
  assumes "k < length pids" and "env_waitpid env (pids ! k) = Reaped st"
    and "\<forall>j. k < j \<and> j < length pids \<longrightarrow> (\<forall>x. env_waitpid env (pids ! j) \<noteq> Reaped x)"
  shows "foldl (\<lambda>st p. case env_waitpid env p of Reaped x \<Rightarrow> x | _ \<Rightarrow> st) status pids = st"
proof -
  have sp: "pids = take (Suc k) pids @ drop (Suc k) pids" by simp
  have ne: "take (Suc k) pids \<noteq> []" using assms(1) by auto
  have la: "last (take (Suc k) pids) = pids ! k"
    using assms(1) by (simp add: take_Suc_conv_app_nth)
  have a: "foldl (\<lambda>st p. case env_waitpid env p of Reaped x \<Rightarrow> x | _ \<Rightarrow> st) status (take (Suc k) pids) = st"
    using wait_status_last[OF ne, of env st status] assms(2) la by simp
  have b: "\<forall>p\<in>set (drop (Suc k) pids). \<forall>x. env_waitpid env p \<noteq> Reaped x"
  proof
    fix p assume "p \<in> set (drop (Suc k) pids)"
    then obtain m where m: "m < length (drop (Suc k) pids)" "p = drop (Suc k) pids ! m"
      by (auto simp: in_set_conv_nth)
    then have "p = pids ! (Suc k + m)" "Suc k + m < length pids" by auto
    then show "\<forall>x. env_waitpid env p \<noteq> Reaped x" using assms(3) by auto
  qed
  have "foldl (\<lambda>st p. case env_waitpid env p of Reaped x \<Rightarrow> x | _ \<Rightarrow> st) status pids =
        foldl (\<lambda>st p. case env_waitpid env p of Reaped x \<Rightarrow> x | _ \<Rightarrow> st)
          (foldl (\<lambda>st p. case env_waitpid env p of Reaped x \<Rightarrow> x | _ \<Rightarrow> st) status (take (Suc k) pids))
          (drop (Suc k) pids)"
    by (subst sp) (simp only: foldl_append)
  also have "\<dots> = st" unfolding a by (rule wait_status_none[OF b])
  finally show ?thesis .
qed

text \<open>
  C4, as amended. When all \<open>n\<close> stages are spawned, \<open>execute_pipeline\<close> returns the
  status stored by the last wait that reaped its stage. That is the status of the last
  stage when the wait for it hands one back, whatever the waits for the earlier stages
  gave; with \<open>n = 1\<close> it is the status of the one command. The result of \<open>waitpid\<close> is
  not looked at: when the wait for stage \<open>k\<close> is the last one that hands back a status,
  the status of stage \<open>k\<close> is returned, and 0 when no wait hands back a status. When a
  \<open>pipe\<close> or \<open>fork\<close> fails, the call returns \<open>-1\<close> and has waited for nothing.
\<close>

theorem execute_pipeline_last_status:
  assumes "n \<le> MAX_COMMANDS"
  shows
  "(spawn_ok env n \<and> 0 < n \<and> env_waitpid env (env_fork env (n - 1)) = Reaped st \<longrightarrow>
      fst (execute_pipeline env commands n s) = st) \<and>
   (spawn_ok env n \<and> k < n \<and> env_waitpid env (env_fork env k) = Reaped st' \<and>
      (\<forall>j. k < j \<and> j < n \<longrightarrow> (\<forall>x. env_waitpid env (env_fork env j) \<noteq> Reaped x)) \<longrightarrow>
      fst (execute_pipeline env commands n s) = st') \<and>
   (spawn_ok env n \<and> (\<forall>j. j < n \<longrightarrow> (\<forall>x. env_waitpid env (env_fork env j) \<noteq> Reaped x)) \<longrightarrow>
      fst (execute_pipeline env commands n s) = 0) \<and>
   (\<not> spawn_ok env n \<longrightarrow>
      fst (execute_pipeline env commands n s) = - 1 \<and>
      fg_events (new_events s (snd (execute_pipeline env commands n s))) = [])"
proof (intro conjI impI)
  assume a: "spawn_ok env n \<and> 0 < n \<and> env_waitpid env (env_fork env (n - 1)) = Reaped st"
  then have ok: "spawn_ok env n" and pos: "0 < n"
    and w: "env_waitpid env (env_fork env (n - 1)) = Reaped st" by simp_all
  have ne: "map (env_fork env) [0..<n] \<noteq> []" using pos by simp
  have l: "last (map (env_fork env) [0..<n]) = env_fork env (n - 1)"
    using pos by (simp add: last_map)
  show "fst (execute_pipeline env commands n s) = st"
    unfolding execute_pipeline_closed[OF ok]
    using wait_status_last[OF ne, of env st 0] w l by simp
next
  assume b: "spawn_ok env n \<and> k < n \<and> env_waitpid env (env_fork env k) = Reaped st' \<and>
      (\<forall>j. k < j \<and> j < n \<longrightarrow> (\<forall>x. env_waitpid env (env_fork env j) \<noteq> Reaped x))"
  then have ok: "spawn_ok env n" by simp
  have k: "k < length (map (env_fork env) [0..<n])" using b by simp
  have w: "env_waitpid env (map (env_fork env) [0..<n] ! k) = Reaped st'" using b by simp
  have r: "\<forall>j. k < j \<and> j < length (map (env_fork env) [0..<n]) \<longrightarrow>
             (\<forall>x. env_waitpid env (map (env_fork env) [0..<n] ! j) \<noteq> Reaped x)"
    using b by simp
  show "fst (execute_pipeline env commands n s) = st'"
    unfolding execute_pipeline_closed[OF ok]
    using wait_status_latest[OF k w r, of 0] by simp
next
  assume c: "spawn_ok env n \<and> (\<forall>j. j < n \<longrightarrow> (\<forall>x. env_waitpid env (env_fork env j) \<noteq> Reaped x))"
  then have ok: "spawn_ok env n" by simp
  have r: "\<forall>p\<in>set (map (env_fork env) [0..<n]). \<forall>x. env_waitpid env p \<noteq> Reaped x"
    using c by auto
  show "fst (execute_pipeline env commands n s) = 0"
    unfolding execute_pipeline_closed[OF ok]
    using wait_status_none[OF r, of 0] by simp
next
  assume "\<not> spawn_ok env n"
  then obtain s1 where f: "spawn_loop env commands n 0 STDIN_FILENO [] s = Inl s1"
    using not_spawn_ok_fails by blast
  have e: "execute_pipeline env commands n s = (- 1, s1)"
    by (simp add: execute_pipeline_def f)
  show "fst (execute_pipeline env commands n s) = - 1" by (simp add: e)
  show "fg_events (new_events s (snd (execute_pipeline env commands n s))) = []"
    using spawn_loop_slot[OF f] by (auto simp: e new_events_def)
qed

text \<open>
  The theorem on two stages, the first of which exits with code 1 (status 256) and the
  last with 0; on the first stage run alone; on two stages when the wait for the last
  fails; on one stage when its wait fails; and when the second \<open>fork\<close> fails.
\<close>

theorem execute_pipeline_last_status_witness:
  "fst (execute_pipeline env0 [''ls'', ''wc''] 2 shell0) = 0 \<and>
   env_waitpid env0 (env_fork env0 0) = Reaped 256 \<and>
   fst (execute_pipeline env0 [''ls''] 1 shell0) = 256 \<and>
   fst (execute_pipeline env_last_wait_fails [''ls'', ''wc''] 2 shell0) = 256 \<and>
   fst (execute_pipeline env_all_waits_fail [''ls''] 1 shell0) = 0 \<and>
   fst (execute_pipeline env_fork_fails [''ls'', ''wc''] 2 shell0) = - 1 \<and>
   fg_events (new_events shell0 (snd (execute_pipeline env_fork_fails [''ls'', ''wc''] 2 shell0))) = []"
proof -
  have h1: "spawn_ok env0 2" "spawn_ok env0 1" "spawn_ok env_last_wait_fails 2"
    "spawn_ok env_all_waits_fail 1"
    by (simp_all add: spawn_ok_def env0_def env_last_wait_fails_def env_all_waits_fail_def)
  have h2: "\<not> spawn_ok env_fork_fails 2"
    by (auto simp: spawn_ok_def env_fork_fails_def intro!: exI[of _ 1])
  have w2: "env_waitpid env0 (env_fork env0 (2 - 1)) = Reaped 0"
    and w1: "env_waitpid env0 (env_fork env0 (1 - 1)) = Reaped 256"
    and w0: "env_waitpid env0 (env_fork env0 0) = Reaped 256"
    by (simp_all add: env0_def)
  have w3: "env_waitpid env_last_wait_fails (env_fork env_last_wait_fails 0) = Reaped 256"
    and w4: "\<forall>j. 0 < j \<and> j < 2 \<longrightarrow>
               (\<forall>x. env_waitpid env_last_wait_fails (env_fork env_last_wait_fails j) \<noteq> Reaped x)"
    by (simp_all add: env_last_wait_fails_def env0_def)
  have w5: "\<forall>j. j < 1 \<longrightarrow> (\<forall>x. env_waitpid env_all_waits_fail (env_fork env_all_waits_fail j) \<noteq> Reaped x)"
    by (simp add: env_all_waits_fail_def)
  have m: "2 \<le> MAX_COMMANDS" "1 \<le> MAX_COMMANDS" by (simp_all add: MAX_COMMANDS_def)
  show ?thesis
    using execute_pipeline_last_status[OF m(1), where env = env0 and st = 0 and
            commands = "[''ls'', ''wc'']" and s = shell0]
          execute_pipeline_last_status[OF m(2), where env = env0 and st = 256 and
            commands = "[''ls'']" and s = shell0]
          execute_pipeline_last_status[OF m(1), where env = env_last_wait_fails and k = 0 and
            st' = 256 and commands = "[''ls'', ''wc'']" and s = shell0]
          execute_pipeline_last_status[OF m(2), where env = env_all_waits_fail and
            commands = "[''ls'']" and s = shell0]
          execute_pipeline_last_status[OF m(1), where env = env_fork_fails and
            commands = "[''ls'', ''wc'']" and s = shell0]
          h1 h2 w0 w1 w2 w3 w4 w5
    by simp
qed

lemma spawn_ok_last_wait_fails:
  "spawn_ok env_last_wait_fails 2" "spawn_ok env_last_wait_fails2 2"
  by (simp_all add: spawn_ok_def env0_def env_last_wait_fails_def env_last_wait_fails2_def)

text \<open>
  C4 as stated fails when the wait for the last stage fails, as it does when a signal
  interrupts it: the last wait performed is the one for the last stage (101) and hands
  back no status, and the value returned is the status of the first stage, 256 in one run
  and 512 in a run that differs in nothing else.
\<close>

theorem failed_last_wait_returns_earlier_status:
  "env_waitpid env_last_wait_fails (env_fork env_last_wait_fails 1) = WaitFailed \<and>
   env_waitpid env_last_wait_fails2 (env_fork env_last_wait_fails2 1) = WaitFailed \<and>
   env_waitpid env_last_wait_fails (env_fork env_last_wait_fails 0) = Reaped 256 \<and>
   env_waitpid env_last_wait_fails2 (env_fork env_last_wait_fails2 0) = Reaped 512 \<and>
   fst (execute_pipeline env_last_wait_fails [''ls'', ''wc''] 2 shell0) = 256 \<and>
   fst (execute_pipeline env_last_wait_fails2 [''ls'', ''wc''] 2 shell0) = 512 \<and>
   last (wait_events (trace (snd (execute_pipeline env_last_wait_fails [''ls'', ''wc''] 2 shell0)))) =
     EvWait 101"
proof -
  have u: "[0..<2] = [0, 1]" by (simp add: upt_rec)
  show ?thesis
    unfolding execute_pipeline_closed[OF spawn_ok_last_wait_fails(1)]
      execute_pipeline_closed[OF spawn_ok_last_wait_fails(2)]
    by (simp add: u shell0_def spawn_events_def pipefd_at_def in_fd_at_def env0_def
          env_last_wait_fails_def env_last_wait_fails2_def STDIN_FILENO_def
          wait_events_def is_wait_event_def)
qed

section \<open>run\_and\_profile: what a call does\<close>

lemma poll_events_Suc: "poll_events pid (Suc k) = [EvPoll pid, EvSleep 1] @ poll_events pid k"
  by (simp add: poll_events_def)

lemma find_upt_ge:
  "find P [a..<b] = Some k \<Longrightarrow> a \<le> k \<and> k < b"
  by (auto simp: find_Some_iff)

lemma poll_loop_closed:
  assumes "0 < T" and "w \<le> nat T"
  shows "poll_loop env pid T w st s =
     (case find (\<lambda>k. env_poll env k \<noteq> StillRunning) [w..<Suc (nat T)] of
        None \<Rightarrow>
          (case env_waitpid env pid of Reaped x \<Rightarrow> x | _ \<Rightarrow> st,
           s\<lparr>trace := trace s @ poll_events pid (nat T - w) @ [EvKill pid SIGKILL, EvWait pid]\<rparr>)
      | Some k \<Rightarrow>
          (case env_poll env k of Reaped x \<Rightarrow> x | _ \<Rightarrow> st,
           s\<lparr>trace := trace s @ poll_events pid (k - w) @
                (if env_poll env k = WaitFailed then [EvPerror ''waitpid''] else [])\<rparr>))"
  using assms
proof (induction "nat T - w" arbitrary: w s)
  case 0
  then have wT: "w = nat T" by simp
  have i: "T \<le> int (nat T)" using 0 by simp
  have u: "[nat T..<Suc (nat T)] = [nat T]" by (simp add: upt_conv_Cons)
  show ?case
    unfolding wT u
    by (subst poll_loop.simps, cases "env_poll env (nat T)")
       (simp_all add: i Let_def emit_def poll_events_def del: upt_Suc)
next
  case (Suc m)
  then have lt: "w < nat T" and m: "m = nat T - Suc w" and le: "Suc w \<le> nat T" by auto
  have nw: "\<not> T \<le> int w" using lt by simp
  have u: "[w..<Suc (nat T)] = w # [Suc w..<Suc (nat T)]" using lt by (simp add: upt_conv_Cons)
  show ?case
  proof (cases "env_poll env w")
    case (Reaped x)
    then show ?thesis
      unfolding u by (subst poll_loop.simps) (simp add: Let_def emit_def poll_events_def del: upt_Suc)
  next
    case WaitFailed
    then show ?thesis
      unfolding u by (subst poll_loop.simps) (simp add: Let_def emit_def poll_events_def del: upt_Suc)
  next
    case StillRunning
    have step: "poll_loop env pid T w st s =
        poll_loop env pid T (Suc w) st (emit (EvSleep 1) (emit (EvPoll pid) s))"
      using StillRunning nw by (subst poll_loop.simps) (simp add: Let_def)
    note IH = Suc.hyps(1)[OF m Suc.prems(1) le, of "emit (EvSleep 1) (emit (EvPoll pid) s)"]
    have d: "nat T - w = Suc (nat T - Suc w)" using lt by arith
    show ?thesis
    proof (cases "find (\<lambda>k. env_poll env k \<noteq> StillRunning) [Suc w..<Suc (nat T)]")
      case None
      then show ?thesis
        unfolding step IH u using StillRunning
        by (simp add: d poll_events_Suc emit_def del: upt_Suc)
    next
      case (Some k)
      then have "Suc w \<le> k" using find_upt_ge by blast
      then have dk: "k - w = Suc (k - Suc w)" by arith
      show ?thesis
        unfolding step IH u using StillRunning Some
        by (simp add: dk poll_events_Suc emit_def del: upt_Suc)
    qed
  qed
qed

lemma wait_phase_closed:
  "(if 0 < T then poll_loop env pid T 0 0 s
    else (case env_waitpid env pid of Reaped st \<Rightarrow> st | _ \<Rightarrow> 0, emit (EvWait pid) s)) =
   (fst (timed_wait env pid T), s\<lparr>trace := trace s @ snd (timed_wait env pid T)\<rparr>)"
proof (cases "0 < T")
  case True
  then show ?thesis
    using poll_loop_closed[OF True, of 0 env pid 0 s]
    by (simp add: timed_wait_def split: option.splits del: upt_Suc)
next
  case False
  then show ?thesis by (simp add: timed_wait_def emit_def)
qed

lemma copy_loop_closed:
  "copy_loop u outfd path s =
     s\<lparr>trace := trace s @ map (EvWrite outfd) (chunks u),
       files := (if u = [] then files s else (files s)(path \<mapsto> file_content s path @ u))\<rparr>"
proof (induction u outfd path s rule: copy_loop.induct)
  case (1 unread outfd path s)
  show ?case
  proof (cases "unread = []")
    case True
    then show ?thesis
      by (subst copy_loop.simps, subst chunks.simps) simp
  next
    case False
    then have b: "0 < length (take 4096 unread)" by simp
    have fc: "file_content (write_append outfd path (take 4096 unread) s) path =
              file_content s path @ take 4096 unread"
      by (simp add: write_append_def file_content_def)
    have "copy_loop unread outfd path s =
          copy_loop (drop 4096 unread) outfd path (write_append outfd path (take 4096 unread) s)"
      using b by (subst copy_loop.simps) (simp add: Let_def)
    also have "\<dots> = (write_append outfd path (take 4096 unread) s)
        \<lparr>trace := trace (write_append outfd path (take 4096 unread) s) @
                  map (EvWrite outfd) (chunks (drop 4096 unread)),
         files := (if drop 4096 unread = [] then files (write_append outfd path (take 4096 unread) s)
                   else (files (write_append outfd path (take 4096 unread) s))
                          (path \<mapsto> file_content (write_append outfd path (take 4096 unread) s) path @
                                  drop 4096 unread))\<rparr>"
      by (rule "1.IH"[OF refl b])
    also have "\<dots> = s\<lparr>trace := trace s @ map (EvWrite outfd) (chunks unread),
       files := (files s)(path \<mapsto> file_content s path @ unread)\<rparr>"
      using False
      apply (subst (2) chunks.simps)
      apply (simp add: fc)
      apply (simp add: write_append_def emit_def)
      done
    finally show ?thesis using False by (simp only: if_False)
  qed
qed

lemma save_output_open_fails:
  assumes "env_open env filename = - 1"
  shows "save_output env argv filename tmpfd tmpname text s =
     s\<lparr>trace := trace s @ [EvPerror ''abrir archivo de salida'', EvClose tmpfd, EvUnlink tmpname],
       files := (files s)(tmpname := None)\<rparr>"
  using assms by (simp add: save_output_def Let_def emit_def)

lemma save_output_open_ok:
  assumes "env_open env filename = outfd" and "outfd \<noteq> - 1" and "filename \<noteq> tmpname"
  shows "save_output env argv filename tmpfd tmpname text s =
     s\<lparr>trace := trace s @ [EvOpen filename outfd, EvWrite outfd (block_header argv), EvLseek tmpfd] @
                map (EvWrite outfd) (chunks (file_content s tmpname)) @
                [EvWrite outfd (summary_bytes env text), EvWrite outfd NL, EvClose outfd,
                 EvClose tmpfd, EvUnlink tmpname],
       files := (files s)(filename \<mapsto> file_content s filename @ block_header argv @
                                      file_content s tmpname @ summary_bytes env text @ NL,
                         tmpname := None)\<rparr>"
proof -
  define o3 where "o3 = emit (EvLseek tmpfd) (write_append outfd filename (block_header argv)
      ((emit (EvOpen filename outfd) s)\<lparr>files := (files s)(filename \<mapsto> file_content s filename)\<rparr>))"
  have o3: "o3 = s\<lparr>trace := trace s @ [EvOpen filename outfd, EvWrite outfd (block_header argv), EvLseek tmpfd],
                   files := (files s)(filename \<mapsto> file_content s filename @ block_header argv)\<rparr>"
    by (simp add: o3_def write_append_def emit_def file_content_def)
  have c3: "file_content o3 tmpname = file_content s tmpname"
    using assms(3) by (simp add: o3 file_content_def)
  have f3: "file_content o3 filename = file_content s filename @ block_header argv"
    by (simp add: o3 file_content_def)
  define o4 where "o4 = copy_loop (file_content o3 tmpname) outfd filename o3"
  have o4: "o4 = s\<lparr>trace := trace s @ [EvOpen filename outfd, EvWrite outfd (block_header argv), EvLseek tmpfd] @
                map (EvWrite outfd) (chunks (file_content s tmpname)),
       files := (files s)(filename \<mapsto> file_content s filename @ block_header argv @ file_content s tmpname)\<rparr>"
    unfolding o4_def copy_loop_closed c3 f3
    by (cases "file_content s tmpname = []") (simp_all add: o3)
  have "save_output env argv filename tmpfd tmpname text s =
      (let o5 = write_append outfd filename (summary_bytes env text) o4;
           o6 = write_append outfd filename NL o5;
           s2 = emit (EvClose tmpfd) (emit (EvClose outfd) o6)
       in (emit (EvUnlink tmpname) s2)\<lparr>files := (files s2)(tmpname := None)\<rparr>)"
    using assms(1,2) by (simp add: save_output_def Let_def o4_def o3_def block_header_def)
  also have "\<dots> = s\<lparr>trace := trace s @ [EvOpen filename outfd, EvWrite outfd (block_header argv), EvLseek tmpfd] @
                map (EvWrite outfd) (chunks (file_content s tmpname)) @
                [EvWrite outfd (summary_bytes env text), EvWrite outfd NL, EvClose outfd,
                 EvClose tmpfd, EvUnlink tmpname],
       files := (files s)(filename \<mapsto> file_content s filename @ block_header argv @
                                      file_content s tmpname @ summary_bytes env text @ NL,
                         tmpname := None)\<rparr>"
    by (simp add: o4 Let_def write_append_def emit_def file_content_def)
  finally show ?thesis .
qed

lemma run_and_profile_terminal:
  assumes "env_fork env 0 = pid" and "pid \<noteq> - 1"
  shows "run_and_profile env argv 0 filename T s =
     (fst (timed_wait env pid T),
      s\<lparr>trace := trace s @ [EvFork pid, EvSetFg pid] @ snd (timed_wait env pid T) @
                 [EvWrite STDOUT_FILENO
                    (summary_bytes env (summary_text env argv (fst (timed_wait env pid T)))),
                  EvSetFg 0],
        procs := procs s @ [(pid, profile_child env argv 0 (- 1) T)],
        current_child := 0\<rparr>)"
  using assms
  by (simp add: run_and_profile_def Let_def wait_phase_closed set_current_child_def emit_def)

lemma run_and_profile_save:
  assumes "save_to_file \<noteq> 0" and "env_mkstemp env = (tmpfd, tmpname)" and "tmpfd \<noteq> - 1"
    and "env_fork env 0 = pid" and "pid \<noteq> - 1"
  shows "run_and_profile env argv save_to_file filename T s =
     (fst (timed_wait env pid T),
      set_current_child 0
        (save_output env argv filename tmpfd tmpname
           (summary_text env argv (fst (timed_wait env pid T)))
           (s\<lparr>procs := procs s @ [(pid, profile_child env argv save_to_file tmpfd T)],
              files := (files s)(tmpname \<mapsto>
                          child_output env (profile_child env argv save_to_file tmpfd T)),
              current_child := pid,
              trace := trace s @ [EvMkstemp tmpname tmpfd, EvFork pid, EvSetFg pid] @
                        snd (timed_wait env pid T)\<rparr>)))"
  using assms
  by (simp add: run_and_profile_def Let_def wait_phase_closed set_current_child_def emit_def)

lemma wait_events_poll [simp]: "wait_events (poll_events pid k) = poll_events pid k"
  by (induction k) (simp_all add: poll_events_def wait_events_def is_wait_event_def)

lemma wait_events_writes [simp]: "wait_events (map (EvWrite fd) xs) = []"
  by (induction xs) (simp_all add: wait_events_def is_wait_event_def)

lemma wait_events_timed:
  "wait_events (snd (timed_wait env pid T)) =
     (if 0 < T then
        (case find (\<lambda>k. env_poll env k \<noteq> StillRunning) [0..<Suc (nat T)] of
           None \<Rightarrow> poll_events pid (nat T) @ [EvKill pid SIGKILL, EvWait pid]
         | Some k \<Rightarrow> poll_events pid k)
      else [EvWait pid])"
  by (simp add: timed_wait_def split: option.splits del: upt_Suc)
     (simp add: wait_events_def is_wait_event_def)

lemma save_output_frame:
  "\<exists>X. trace (save_output env argv filename tmpfd tmpname text s) = trace s @ X \<and> wait_events X = []"
  "procs (save_output env argv filename tmpfd tmpname text s) = procs s"
  by (simp_all add: save_output_def Let_def copy_loop_closed write_append_def emit_def
        wait_events_def is_wait_event_def)

lemma run_and_profile_waits:
  assumes "env_fork env 0 = pid" and "pid \<noteq> - 1"
    and "save_to_file \<noteq> 0 \<longrightarrow> fst (env_mkstemp env) \<noteq> - 1"
  shows "fst (run_and_profile env argv save_to_file filename T s) = fst (timed_wait env pid T)"
    and "wait_events (new_events s (snd (run_and_profile env argv save_to_file filename T s))) =
         wait_events (snd (timed_wait env pid T))"
    and "procs (snd (run_and_profile env argv save_to_file filename T s)) =
         procs s @ [(pid, profile_child env argv save_to_file
                            (if save_to_file \<noteq> 0 then fst (env_mkstemp env) else - 1) T)]"
    and "current_child (snd (run_and_profile env argv save_to_file filename T s)) = 0"
proof -
  let ?r = "run_and_profile env argv save_to_file filename T s"
  have "fst ?r = fst (timed_wait env pid T) \<and>
        wait_events (new_events s (snd ?r)) = wait_events (snd (timed_wait env pid T)) \<and>
        procs (snd ?r) = procs s @ [(pid, profile_child env argv save_to_file
                            (if save_to_file \<noteq> 0 then fst (env_mkstemp env) else - 1) T)] \<and>
        current_child (snd ?r) = 0"
  proof (cases "save_to_file = 0")
    case True
    show ?thesis
      unfolding True run_and_profile_terminal[OF assms(1,2)]
      by (simp add: new_events_def) (simp add: wait_events_def is_wait_event_def)
  next
    case False
    obtain tmpfd tmpname where mk: "env_mkstemp env = (tmpfd, tmpname)" by (cases "env_mkstemp env")
    with assms(3) False have fd: "tmpfd \<noteq> - 1" by simp
    let ?s4 = "s\<lparr>procs := procs s @ [(pid, profile_child env argv save_to_file tmpfd T)],
              files := (files s)(tmpname \<mapsto>
                          child_output env (profile_child env argv save_to_file tmpfd T)),
              current_child := pid,
              trace := trace s @ [EvMkstemp tmpname tmpfd, EvFork pid, EvSetFg pid] @
                        snd (timed_wait env pid T)\<rparr>"
    let ?text = "summary_text env argv (fst (timed_wait env pid T))"
    obtain X where X: "trace (save_output env argv filename tmpfd tmpname ?text ?s4) = trace ?s4 @ X"
      "wait_events X = []"
      using save_output_frame(1) by blast
    have p: "procs (save_output env argv filename tmpfd tmpname ?text ?s4) = procs ?s4"
      by (rule save_output_frame(2))
    show ?thesis
      unfolding run_and_profile_save[OF False mk fd assms(1,2)]
      using X p False
      by (simp add: new_events_def mk set_current_child_def emit_def wait_events_def is_wait_event_def)
  qed
  then show "fst ?r = fst (timed_wait env pid T)"
    and "wait_events (new_events s (snd ?r)) = wait_events (snd (timed_wait env pid T))"
    and "procs (snd ?r) = procs s @ [(pid, profile_child env argv save_to_file
                            (if save_to_file \<noteq> 0 then fst (env_mkstemp env) else - 1) T)]"
    and "current_child (snd ?r) = 0"
    by simp_all
qed

lemma find_poll_None:
  "(\<forall>k\<le>n. env_poll env k = StillRunning) \<Longrightarrow>
   find (\<lambda>k. env_poll env k \<noteq> StillRunning) [0..<Suc n] = None"
  by (simp add: find_None_iff del: upt_Suc)


lemma written_append [simp]: "written (a @ b) = written a @ written b"
  and written_Nil [simp]: "written [] = []"
  and written_Cons [simp]:
    "written (e # tr) = (case e of EvWrite f b \<Rightarrow> [(f, b)] | _ \<Rightarrow> []) @ written tr"
  by (simp_all add: written_def)

lemma written_poll [simp]: "written (poll_events pid k) = []"
  by (induction k) (simp_all add: poll_events_def)

lemma written_timed [simp]: "written (snd (timed_wait env pid T)) = []"
  unfolding timed_wait_def
  by (cases "find (\<lambda>k. env_poll env k \<noteq> StillRunning) [0..<Suc (nat T)]")
     (simp_all del: upt_Suc)







lemma timed_wait_env_open [simp]:
  "timed_wait (env\<lparr>env_open := f\<rparr>) pid T = timed_wait env pid T"
  by (simp add: timed_wait_def split: option.splits del: upt_Suc)

lemma profile_child_env_open [simp]:
  "profile_child (env\<lparr>env_open := f\<rparr>) argv sv tmpfd T = profile_child env argv sv tmpfd T"
  by (simp add: profile_child_def)

text \<open>
  C8. When the target cannot be opened, the calls of the parent are: create the
  temporary file, fork, set the slot, wait; then report the failure, close the temporary
  descriptor, unlink the temporary file, clear the slot. Nothing is written anywhere,
  the files are as before but for the temporary file, which is gone; and the value
  returned, the child and the waits are what they are with any other result of \<open>open\<close>.
\<close>

theorem ejecsave_open_failure:
  assumes "save_to_file \<noteq> 0" and "env_mkstemp env = (tmpfd, tmpname)" and "tmpfd \<noteq> - 1"
    and "env_fork env 0 = pid" and "pid \<noteq> - 1" and "env_open env filename = - 1"
  shows "new_events s (snd (run_and_profile env argv save_to_file filename T s)) =
           [EvMkstemp tmpname tmpfd, EvFork pid, EvSetFg pid] @ snd (timed_wait env pid T) @
           [EvPerror ''abrir archivo de salida'', EvClose tmpfd, EvUnlink tmpname, EvSetFg 0] \<and>
         files (snd (run_and_profile env argv save_to_file filename T s)) = (files s)(tmpname := None) \<and>
         fst (run_and_profile env argv save_to_file filename T s) =
           fst (run_and_profile (env\<lparr>env_open := f\<rparr>) argv save_to_file filename T s) \<and>
         procs (snd (run_and_profile env argv save_to_file filename T s)) =
           procs (snd (run_and_profile (env\<lparr>env_open := f\<rparr>) argv save_to_file filename T s)) \<and>
         wait_events (new_events s (snd (run_and_profile env argv save_to_file filename T s))) =
           wait_events (new_events s
             (snd (run_and_profile (env\<lparr>env_open := f\<rparr>) argv save_to_file filename T s)))"
proof -
  let ?env' = "env\<lparr>env_open := f\<rparr>"
  have m: "save_to_file \<noteq> 0 \<longrightarrow> fst (env_mkstemp env) \<noteq> - 1" using assms(2,3) by simp
  have m': "save_to_file \<noteq> 0 \<longrightarrow> fst (env_mkstemp ?env') \<noteq> - 1" using assms(2,3) by simp
  have f': "env_fork ?env' 0 = pid" using assms(4) by simp
  note w = run_and_profile_waits[OF assms(4,5) m]
  note w' = run_and_profile_waits[OF f' assms(5) m']
  have a: "new_events s (snd (run_and_profile env argv save_to_file filename T s)) =
           [EvMkstemp tmpname tmpfd, EvFork pid, EvSetFg pid] @ snd (timed_wait env pid T) @
           [EvPerror ''abrir archivo de salida'', EvClose tmpfd, EvUnlink tmpname, EvSetFg 0]"
    unfolding run_and_profile_save[OF assms(1,2,3,4,5)] save_output_open_fails[OF assms(6)]
    by (simp add: new_events_def)
  have b: "files (snd (run_and_profile env argv save_to_file filename T s)) = (files s)(tmpname := None)"
    unfolding run_and_profile_save[OF assms(1,2,3,4,5)] save_output_open_fails[OF assms(6)]
    by simp
  have c: "fst (run_and_profile env argv save_to_file filename T s) =
           fst (run_and_profile ?env' argv save_to_file filename T s)"
    using w(1) w'(1) by simp
  have d: "procs (snd (run_and_profile env argv save_to_file filename T s)) =
           procs (snd (run_and_profile ?env' argv save_to_file filename T s))"
    using w(3) w'(3) by simp
  have e: "wait_events (new_events s (snd (run_and_profile env argv save_to_file filename T s))) =
           wait_events (new_events s (snd (run_and_profile ?env' argv save_to_file filename T s)))"
    using w(2) w'(2) by simp
  show ?thesis by (intro conjI a b c d e)
qed

text \<open>
  The theorem on \<open>miprof ejecsave /nodir/out.txt ls\<close>.
\<close>

theorem ejecsave_open_failure_witness:
  "new_events shell_log (snd (run_and_profile env_open_fails [''ls''] 1 ''/nodir/out.txt'' 0 shell_log)) =
     [EvMkstemp ''/tmp/miprof_out_a1B2c3'' 3, EvFork 100, EvSetFg 100, EvWait 100,
      EvPerror ''abrir archivo de salida'', EvClose 3, EvUnlink ''/tmp/miprof_out_a1B2c3'', EvSetFg 0] \<and>
   files (snd (run_and_profile env_open_fails [''ls''] 1 ''/nodir/out.txt'' 0 shell_log)) =
     (files shell_log)(''/tmp/miprof_out_a1B2c3'' := None) \<and>
   fst (run_and_profile env_open_fails [''ls''] 1 ''/nodir/out.txt'' 0 shell_log) =
     fst (run_and_profile (env_open_fails\<lparr>env_open := env_open env0\<rparr>) [''ls''] 1 ''/nodir/out.txt'' 0 shell_log)"
proof -
  have h: "(1::int) \<noteq> 0" "env_mkstemp env_open_fails = (3, ''/tmp/miprof_out_a1B2c3'')"
    "(3::int) \<noteq> - 1" "env_fork env_open_fails 0 = 100" "(100::int) \<noteq> - 1"
    "env_open env_open_fails ''/nodir/out.txt'' = - 1"
    by (simp_all add: env_open_fails_def env0_def)
  have t: "timed_wait env_open_fails 100 0 = (256, [EvWait 100])"
    by (simp add: timed_wait_def env_open_fails_def env0_def)
  show ?thesis
    using ejecsave_open_failure[OF h, where s = shell_log and argv = "[''ls'']" and T = 0 and f = "env_open env0"]
    by (simp add: t)
qed

section \<open>The children, the dispatcher and the appended block\<close>

lemma procs_spawned:
  assumes "spawn_ok env n" and "i < n"
  shows "procs (snd (execute_pipeline env commands n s)) ! (length (procs s) + i) =
           spawned_child env commands n i"
    and "length (procs (snd (execute_pipeline env commands n s))) = length (procs s) + n"
  using assms(2) by (simp_all add: execute_pipeline_closed[OF assms(1)] nth_append)

text \<open>
  C9. In a pipeline whose stages are all spawned, a stage whose argument vector is
  empty still gets its process, at its position; that child calls \<open>exit(0)\<close> without
  an \<open>execvp\<close> and without a message. A child that does execute a program has a
  non-empty vector, whose first entry is the program.
\<close>

theorem empty_stage_is_noop:
  assumes "spawn_ok env n" and "i < n" and "parse_args (commands ! i) = []"
    and "n \<le> MAX_COMMANDS" and "n \<le> length commands"
  shows "length (procs (snd (execute_pipeline env commands n s))) = length (procs s) + n \<and>
         fst (procs (snd (execute_pipeline env commands n s)) ! (length (procs s) + i)) = env_fork env i \<and>
         c_outcome (snd (procs (snd (execute_pipeline env commands n s)) ! (length (procs s) + i))) =
           Exited 0 \<and>
         (\<forall>m. EvStderr m \<notin>
            set (c_events (snd (procs (snd (execute_pipeline env commands n s)) ! (length (procs s) + i))))) \<and>
         (\<forall>j file argv. j < n \<and>
            c_outcome (snd (procs (snd (execute_pipeline env commands n s)) ! (length (procs s) + j))) =
              Execd file argv \<longrightarrow>
            argv = parse_args (commands ! j) \<and> argv \<noteq> [] \<and> file = argv ! 0)"
proof -
  note p = procs_spawned[OF assms(1)]
  have a: "c_outcome (snd (spawned_child env commands n i)) = Exited 0"
    and b: "\<forall>m. EvStderr m \<notin> set (c_events (snd (spawned_child env commands n i)))"
    using assms(3) by (auto simp: spawned_child_def stage_child_def Let_def)
  have c: "\<forall>j file argv. j < n \<and> c_outcome (snd (spawned_child env commands n j)) = Execd file argv \<longrightarrow>
            argv = parse_args (commands ! j) \<and> argv \<noteq> [] \<and> file = argv ! 0"
    by (auto simp: spawned_child_def stage_child_def Let_def split: if_splits option.splits)
  have d: "\<forall>j file argv. j < n \<and>
            c_outcome (snd (procs (snd (execute_pipeline env commands n s)) ! (length (procs s) + j))) =
              Execd file argv \<longrightarrow>
            argv = parse_args (commands ! j) \<and> argv \<noteq> [] \<and> file = argv ! 0"
  proof (intro allI impI)
    fix j prog argv
    assume h: "j < n \<and>
            c_outcome (snd (procs (snd (execute_pipeline env commands n s)) ! (length (procs s) + j))) =
              Execd prog argv"
    then have "j < n \<and> c_outcome (snd (spawned_child env commands n j)) = Execd prog argv"
      using p(1)[of j commands s] by simp
    then show "argv = parse_args (commands ! j) \<and> argv \<noteq> [] \<and> prog = argv ! 0"
      using c by blast
  qed
  have e: "fst (procs (snd (execute_pipeline env commands n s)) ! (length (procs s) + i)) = env_fork env i"
    using p(1)[OF assms(2)] by (simp add: spawned_child_def)
  show ?thesis
    using a b d e p(2)[OF assms(2)] by (simp add: p(1)[OF assms(2)])
qed

text \<open>
  The theorem on three stages with an empty one in the middle.
\<close>

theorem empty_stage_is_noop_witness:
  "length (procs (snd (execute_pipeline env0 [''ls'', [], ''wc''] 3 shell0))) = 3 \<and>
   fst (procs (snd (execute_pipeline env0 [''ls'', [], ''wc''] 3 shell0)) ! 1) = 101 \<and>
   c_outcome (snd (procs (snd (execute_pipeline env0 [''ls'', [], ''wc''] 3 shell0)) ! 1)) = Exited 0"
proof -
  have h: "spawn_ok env0 3" "(1::nat) < 3" "parse_args ([''ls'', [], ''wc''] ! 1) = []"
    "3 \<le> MAX_COMMANDS" "3 \<le> length [''ls'', [], ''wc'']"
    by (simp_all add: spawn_ok_def env0_def parse_args_Nil MAX_COMMANDS_def)
  have l: "length (procs shell0) = 0" by (simp add: shell0_def)
  show ?thesis
    using empty_stage_is_noop[OF h, of shell0] l by (simp add: env0_def)
qed

text \<open>
  C7. A child whose \<open>execvp\<close> fails, be it a pipeline stage or the profiled command,
  ends its run by printing \<open>mishell: <name>: <error>\<close> to its standard error and
  calling \<open>exit\<close> (\<open>_exit\<close> in the profiler) with 127. Every run of a child ends in
  \<open>Exited\<close> or \<open>Execd\<close>: none returns into the caller's code.
\<close>

theorem exec_failure_exits_127:
  "(spawn_ok env n \<and> n \<le> MAX_COMMANDS \<and> n \<le> length commands \<and> i < n \<and>
      parse_args (commands ! i) = argv \<and> argv \<noteq> [] \<and>
      env_execvp env (argv ! 0) argv = Some err \<longrightarrow>
      c_outcome (snd (procs (snd (execute_pipeline env commands n s)) ! (length (procs s) + i))) =
        Exited 127 \<and>
      last (c_events (snd (procs (snd (execute_pipeline env commands n s)) ! (length (procs s) + i)))) =
        EvStderr (''mishell: '' @ argv ! 0 @ '': '' @ err @ NL)) \<and>
   (env_fork env 0 \<noteq> - 1 \<and> (save_to_file \<noteq> 0 \<longrightarrow> fst (env_mkstemp env) \<noteq> - 1) \<and>
      env_execvp env (pargv ! 0) pargv = Some err \<longrightarrow>
      c_outcome (snd (last (procs (snd (run_and_profile env pargv save_to_file filename T s))))) =
        Exited 127 \<and>
      last (c_events (snd (last (procs (snd (run_and_profile env pargv save_to_file filename T s)))))) =
        EvStderr (''mishell: '' @ pargv ! 0 @ '': '' @ err @ NL))"
proof (intro conjI impI)
  assume a: "spawn_ok env n \<and> n \<le> MAX_COMMANDS \<and> n \<le> length commands \<and> i < n \<and>
      parse_args (commands ! i) = argv \<and> argv \<noteq> [] \<and>
      env_execvp env (argv ! 0) argv = Some err"
  then have p: "procs (snd (execute_pipeline env commands n s)) ! (length (procs s) + i) =
           spawned_child env commands n i"
    using procs_spawned(1) by blast
  show "c_outcome (snd (procs (snd (execute_pipeline env commands n s)) ! (length (procs s) + i))) =
        Exited 127"
    unfolding p using a by (simp add: spawned_child_def stage_child_def Let_def)
  show "last (c_events (snd (procs (snd (execute_pipeline env commands n s)) ! (length (procs s) + i)))) =
        EvStderr (''mishell: '' @ argv ! 0 @ '': '' @ err @ NL)"
    unfolding p using a by (simp add: spawned_child_def stage_child_def Let_def)
next
  assume b: "env_fork env 0 \<noteq> - 1 \<and> (save_to_file \<noteq> 0 \<longrightarrow> fst (env_mkstemp env) \<noteq> - 1) \<and>
      env_execvp env (pargv ! 0) pargv = Some err"
  then have p: "procs (snd (run_and_profile env pargv save_to_file filename T s)) =
         procs s @ [(env_fork env 0, profile_child env pargv save_to_file
                            (if save_to_file \<noteq> 0 then fst (env_mkstemp env) else - 1) T)]"
    using run_and_profile_waits(3)[OF refl] by blast
  show "c_outcome (snd (last (procs (snd (run_and_profile env pargv save_to_file filename T s))))) =
        Exited 127"
    unfolding p using b by (simp add: profile_child_def Let_def)
  show "last (c_events (snd (last (procs (snd (run_and_profile env pargv save_to_file filename T s)))))) =
        EvStderr (''mishell: '' @ pargv ! 0 @ '': '' @ err @ NL)"
    unfolding p using b by (simp add: profile_child_def Let_def)
qed

text \<open>
  The theorem on \<open>ls | nosuchprogramxyz -v\<close> and on \<open>miprof ejecsave out.txt
  nosuchprogramxyz\<close>.
\<close>

theorem exec_failure_exits_127_witness:
  "c_outcome (snd (procs (snd (execute_pipeline env0 [''ls'', ''nosuchprogramxyz -v''] 2 shell0)) ! 1)) =
     Exited 127 \<and>
   last (c_events (snd (procs (snd (execute_pipeline env0 [''ls'', ''nosuchprogramxyz -v''] 2 shell0)) ! 1))) =
     EvStderr (''mishell: nosuchprogramxyz: No such file or directory'' @ NL) \<and>
   c_outcome (snd (last (procs (snd (run_and_profile env0 [''nosuchprogramxyz''] 1 ''out.txt'' 0 shell0))))) =
     Exited 127 \<and>
   last (c_events (snd (last (procs (snd (run_and_profile env0 [''nosuchprogramxyz''] 1 ''out.txt'' 0 shell0)))))) =
     EvStderr (''mishell: nosuchprogramxyz: No such file or directory'' @ NL)"
proof -
  have pa: "parse_args ''nosuchprogramxyz -v'' = [''nosuchprogramxyz'', ''-v'']"
    by code_simp
  have h1: "spawn_ok env0 2 \<and> 2 \<le> MAX_COMMANDS \<and> 2 \<le> length [''ls'', ''nosuchprogramxyz -v''] \<and>
      (1::nat) < 2 \<and>
      parse_args ([''ls'', ''nosuchprogramxyz -v''] ! 1) = [''nosuchprogramxyz'', ''-v''] \<and>
      [''nosuchprogramxyz'', ''-v''] \<noteq> [] \<and>
      env_execvp env0 ([''nosuchprogramxyz'', ''-v''] ! 0) [''nosuchprogramxyz'', ''-v''] =
        Some ''No such file or directory''"
    by (simp add: spawn_ok_def env0_def pa MAX_COMMANDS_def)
  have h2: "env_fork env0 0 \<noteq> - 1 \<and> ((1::int) \<noteq> 0 \<longrightarrow> fst (env_mkstemp env0) \<noteq> - 1) \<and>
      env_execvp env0 ([''nosuchprogramxyz''] ! 0) [''nosuchprogramxyz''] = Some ''No such file or directory''"
    by (simp add: env0_def)
  have l: "length (procs shell0) = 0" by (simp add: shell0_def)
  show ?thesis
    using exec_failure_exits_127[where env = env0 and n = 2 and i = 1 and
            commands = "[''ls'', ''nosuchprogramxyz -v'']" and argv = "[''nosuchprogramxyz'', ''-v'']" and
            err = "''No such file or directory''" and s = shell0 and save_to_file = 1 and
            pargv = "[''nosuchprogramxyz'']" and filename = "''out.txt''" and T = 0]
          h1 h2 l
    by simp
qed

lemma digits_value_no_digit: "r = [] \<or> \<not> isdigit (hd r) \<Longrightarrow> digits_value 0 r = 0"
  by (cases r) auto

lemma digit_char:
  assumes "k < 10"
  shows "isdigit (char_of (48 + k))" and "of_char (char_of (48 + k)) = (48 + int k)"
    and "\<not> isspace (char_of (48 + k))" and "char_of (48 + k) \<noteq> CHR ''-''"
    and "char_of (48 + k) \<noteq> CHR ''+''"
proof -
  have m: "(48 + k) mod 256 = 48 + k" using assms by simp
  have n: "of_char (char_of (48 + k)) = 48 + k" by (simp add: m)
  show "isdigit (char_of (48 + k))" using assms by (simp add: isdigit_def n)
  have "(of_char (char_of (48 + k)) :: int) = int (of_char (char_of (48 + k)))" by (simp add: of_char_def)
  then show "of_char (char_of (48 + k)) = (48 + int k)" using n by simp
  show "\<not> isspace (char_of (48 + k))"
  proof
    assume "isspace (char_of (48 + k))"
    then have "(of_char (char_of (48 + k)) :: nat) \<in> of_char ` set [CHR '' '', CHR 0x09, CHR 0x0A, CHR 0x0B, CHR 0x0C, CHR 0x0D]"
      unfolding isspace_def by (rule imageI)
    then show False unfolding n by simp
  qed
  show "char_of (48 + k) \<noteq> CHR ''-''"
  proof
    assume "char_of (48 + k) = CHR ''-''"
    then have "(of_char (char_of (48 + k)) :: nat) = of_char CHR ''-''" by simp
    then show False unfolding n by simp
  qed
  show "char_of (48 + k) \<noteq> CHR ''+''"
  proof
    assume "char_of (48 + k) = CHR ''+''"
    then have "(of_char (char_of (48 + k)) :: nat) = of_char CHR ''+''" by simp
    then show False unfolding n by simp
  qed
qed

lemma digits_value_show_nat:
  "digits_value 0 (show_nat k @ rest) = digits_value (int k) rest"
proof (induction k arbitrary: rest rule: show_nat.induct)
  case (1 n)
  show ?case
  proof (cases "n < 10")
    case True
    then show ?thesis
      by (subst show_nat.simps) (simp add: digit_char)
  next
    case False
    have m: "n mod 10 < 10" by simp
    have "digits_value 0 (show_nat n @ rest) =
          digits_value 0 (show_nat (n div 10) @ (char_of (48 + n mod 10) # rest))"
      using False by (subst show_nat.simps) simp
    also have "\<dots> = digits_value (int (n div 10)) (char_of (48 + n mod 10) # rest)"
      by (rule "1.IH"[OF False])
    also have "\<dots> = digits_value (int (n div 10) * 10 + int (n mod 10)) rest"
      by (simp add: digit_char[OF m])
    also have "int (n div 10) * 10 + int (n mod 10) = int n"
      by (simp add: zdiv_int zmod_int)
    finally show ?thesis .
  qed
qed

lemma show_nat_first:
  "\<exists>c r. show_nat k = c # r \<and> isdigit c \<and> \<not> isspace c \<and> c \<noteq> CHR ''-'' \<and> c \<noteq> CHR ''+''"
proof (induction k rule: show_nat.induct)
  case (1 n)
  show ?case
  proof (cases "n < 10")
    case True
    then show ?thesis
      by (subst show_nat.simps) (simp add: digit_char)
  next
    case False
    from "1.IH"[OF False] obtain c r where
      "show_nat (n div 10) = c # r \<and> isdigit c \<and> \<not> isspace c \<and> c \<noteq> CHR ''-'' \<and> c \<noteq> CHR ''+''"
      by blast
    then show ?thesis using False
      by (subst show_nat.simps) simp
  qed
qed

lemma atoi_number_prefix:
  assumes "k < 2 ^ 31" and "rest = [] \<or> \<not> isdigit (hd rest)"
  shows "atoi (show_nat k @ rest) = int k"
proof -
  obtain c r where c: "show_nat k = c # r" "isdigit c" "\<not> isspace c" "c \<noteq> CHR ''-''" "c \<noteq> CHR ''+''"
    using show_nat_first by blast
  have d: "dropWhile isspace (show_nat k @ rest) = show_nat k @ rest"
    using c by simp
  have r: "digits_value (int k) rest = int k" using assms(2) by (cases rest) auto
  have v: "digits_value 0 (show_nat k @ rest) = int k"
    using digits_value_show_nat[of k rest] r by simp
  have cs: "(case show_nat k @ rest of [] \<Rightarrow> 0
             | c # r \<Rightarrow> if c = CHR ''-'' then - digits_value 0 r
                       else if c = CHR ''+'' then digits_value 0 r
                       else int k) = int k"
    unfolding c(1) using c(4,5) by simp
  have s: "strtol10 (show_nat k @ rest) = max (- (2 ^ 63)) (min (2 ^ 63 - 1) (int k))"
    unfolding strtol10_def d Let_def v cs by (rule refl)
  have "int k < int (2 ^ 31)" using assms(1) by (simp only: of_nat_less_iff)
  then have b: "int k < 2 ^ 31" by simp
  have "strtol10 (show_nat k @ rest) = int k" unfolding s using b by simp
  then show ?thesis using b by (simp add: atoi_def)
qed

lemma atoi_no_number: "\<not> leading_number str \<Longrightarrow> atoi str = 0"
proof -
  assume n: "\<not> leading_number str"
  have "strtol10 str = 0"
  proof (cases "dropWhile isspace str")
    case Nil
    show ?thesis unfolding strtol10_def Let_def Nil by simp
  next
    case (Cons c r)
    show ?thesis
    proof (cases "c = CHR ''-'' \<or> c = CHR ''+''")
      case True
      with n Cons have "r = [] \<or> \<not> isdigit (hd r)" by (auto simp: leading_number_def)
      then have "digits_value 0 r = 0" by (rule digits_value_no_digit)
      then show ?thesis unfolding strtol10_def Let_def Cons using True by auto
    next
      case False
      with n Cons have "\<not> isdigit c" by (auto simp: leading_number_def)
      then show ?thesis unfolding strtol10_def Let_def Cons using False by simp
    qed
  qed
  then show ?thesis by (simp add: atoi_def)
qed


lemma timed_wait_nonpositive:
  "T \<le> 0 \<Longrightarrow> timed_wait env pid T =
     (case env_waitpid env pid of Reaped x \<Rightarrow> x | _ \<Rightarrow> 0, [EvWait pid])"
  by (simp add: timed_wait_def)

text \<open>
  C10, as amended. For \<open>miprof maxtiempo <segs> <cmd> ...\<close> and a \<open>fork\<close> that succeeds,
  the dispatcher returns 0. With \<open>atoi(segs) \<le> 0\<close> the shell's calls are fork, set the
  slot, one blocking wait, write the summary, clear the slot: there is no message on the
  shell's standard error, no poll, no sleep and no \<open>kill\<close>, and the child sets no alarm.
  \<open>atoi\<close> gives 0 for every string in which no digit follows the leading white space
  and the optional sign. It does not give 0 for every non-numeric string: for the decimal
  digits of a number \<open>k\<close> from 1 to \<open>2^31 - 1\<close> followed by anything that is not a
  digit, as in \<open>2x\<close>, it gives \<open>k\<close>, and with \<open>atoi(segs) > 0\<close> the child sets an alarm
  and is polled, and killed when none of the polls sees it end.
\<close>

theorem maxtiempo_nonpositive_blocks:
  assumes "parse_args cmdline = ''miprof'' # ''maxtiempo'' # segs # cmd # args"
    and "env_fork env 0 = pid" and "pid \<noteq> - 1"
  shows "fst (handle_single_command env cmdline s) = Returned 0 \<and>
         (atoi segs \<le> 0 \<longrightarrow>
            new_events s (snd (handle_single_command env cmdline s)) =
              [EvFork pid, EvSetFg pid, EvWait pid,
               EvWrite STDOUT_FILENO
                 (summary_bytes env
                    (summary_text env (cmd # args)
                       (case env_waitpid env pid of Reaped st \<Rightarrow> st | _ \<Rightarrow> 0))),
               EvSetFg 0] \<and>
            procs (snd (handle_single_command env cmdline s)) =
              procs s @ [(pid, profile_child env (cmd # args) 0 (- 1) (atoi segs))] \<and>
            c_events (profile_child env (cmd # args) 0 (- 1) (atoi segs)) =
              (case env_execvp env cmd (cmd # args) of
                 None \<Rightarrow> []
               | Some err \<Rightarrow> [EvStderr (''mishell: '' @ cmd @ '': '' @ err @ NL)])) \<and>
         (0 < atoi segs \<and> (\<forall>k\<le>nat (atoi segs). env_poll env k = StillRunning) \<longrightarrow>
            wait_events (new_events s (snd (handle_single_command env cmdline s))) =
              concat (replicate (nat (atoi segs)) [EvPoll pid, EvSleep 1]) @
              [EvPoll pid, EvKill pid SIGKILL, EvWait pid] \<and>
            procs (snd (handle_single_command env cmdline s)) =
              procs s @ [(pid, profile_child env (cmd # args) 0 (- 1) (atoi segs))] \<and>
            hd (c_events (profile_child env (cmd # args) 0 (- 1) (atoi segs))) =
              EvAlarm (atoi segs)) \<and>
         (\<not> leading_number str \<longrightarrow> atoi str = 0) \<and>
         (k < 2 ^ 31 \<and> (rest = [] \<or> \<not> isdigit (hd rest)) \<longrightarrow>
            atoi (show_nat k @ rest) = int k)"
proof -
  have h: "handle_single_command env cmdline s =
        (Returned 0, snd (run_and_profile env (cmd # args) 0 [] (atoi segs) s))"
    by (simp add: handle_single_command_def assms(1) Let_def)
  have a: "fst (handle_single_command env cmdline s) = Returned 0" by (simp add: h)
  have b: "atoi segs \<le> 0 \<longrightarrow>
            new_events s (snd (handle_single_command env cmdline s)) =
              [EvFork pid, EvSetFg pid, EvWait pid,
               EvWrite STDOUT_FILENO
                 (summary_bytes env
                    (summary_text env (cmd # args)
                       (case env_waitpid env pid of Reaped st \<Rightarrow> st | _ \<Rightarrow> 0))),
               EvSetFg 0] \<and>
            procs (snd (handle_single_command env cmdline s)) =
              procs s @ [(pid, profile_child env (cmd # args) 0 (- 1) (atoi segs))] \<and>
            c_events (profile_child env (cmd # args) 0 (- 1) (atoi segs)) =
              (case env_execvp env cmd (cmd # args) of
                 None \<Rightarrow> []
               | Some err \<Rightarrow> [EvStderr (''mishell: '' @ cmd @ '': '' @ err @ NL)])"
  proof
    assume le: "atoi segs \<le> 0"
    have c: "c_events (profile_child env (cmd # args) 0 (- 1) (atoi segs)) =
           (case env_execvp env cmd (cmd # args) of
              None \<Rightarrow> []
            | Some err \<Rightarrow> [EvStderr (''mishell: '' @ cmd @ '': '' @ err @ NL)])"
      using le by (simp add: profile_child_def split: option.splits)
    show "new_events s (snd (handle_single_command env cmdline s)) =
              [EvFork pid, EvSetFg pid, EvWait pid,
               EvWrite STDOUT_FILENO
                 (summary_bytes env
                    (summary_text env (cmd # args)
                       (case env_waitpid env pid of Reaped st \<Rightarrow> st | _ \<Rightarrow> 0))),
               EvSetFg 0] \<and>
            procs (snd (handle_single_command env cmdline s)) =
              procs s @ [(pid, profile_child env (cmd # args) 0 (- 1) (atoi segs))] \<and>
            c_events (profile_child env (cmd # args) 0 (- 1) (atoi segs)) =
              (case env_execvp env cmd (cmd # args) of
                 None \<Rightarrow> []
               | Some err \<Rightarrow> [EvStderr (''mishell: '' @ cmd @ '': '' @ err @ NL)])"
      unfolding h run_and_profile_terminal[OF assms(2,3)] timed_wait_nonpositive[OF le]
      using c by (simp add: new_events_def)
  qed
  have c: "0 < atoi segs \<and> (\<forall>k\<le>nat (atoi segs). env_poll env k = StillRunning) \<longrightarrow>
            wait_events (new_events s (snd (handle_single_command env cmdline s))) =
              concat (replicate (nat (atoi segs)) [EvPoll pid, EvSleep 1]) @
              [EvPoll pid, EvKill pid SIGKILL, EvWait pid] \<and>
            procs (snd (handle_single_command env cmdline s)) =
              procs s @ [(pid, profile_child env (cmd # args) 0 (- 1) (atoi segs))] \<and>
            hd (c_events (profile_child env (cmd # args) 0 (- 1) (atoi segs))) =
              EvAlarm (atoi segs)"
  proof
    assume p: "0 < atoi segs \<and> (\<forall>k\<le>nat (atoi segs). env_poll env k = StillRunning)"
    then have pos: "0 < atoi segs" and run: "\<forall>k\<le>nat (atoi segs). env_poll env k = StillRunning"
      by simp_all
    have m: "(0::int) \<noteq> 0 \<longrightarrow> fst (env_mkstemp env) \<noteq> - 1" by simp
    note w = run_and_profile_waits[OF assms(2,3) m, where argv = "cmd # args" and filename = "[]" and
               T = "atoi segs" and s = s]
    have w1: "wait_events (new_events s (snd (handle_single_command env cmdline s))) =
              concat (replicate (nat (atoi segs)) [EvPoll pid, EvSleep 1]) @
              [EvPoll pid, EvKill pid SIGKILL, EvWait pid]"
      unfolding h snd_conv w(2) wait_events_timed using pos find_poll_None[OF run]
      by (simp add: poll_events_def del: upt_Suc)
    have w2: "procs (snd (handle_single_command env cmdline s)) =
              procs s @ [(pid, profile_child env (cmd # args) 0 (- 1) (atoi segs))]"
      unfolding h snd_conv w(3) by simp
    have w3: "hd (c_events (profile_child env (cmd # args) 0 (- 1) (atoi segs))) = EvAlarm (atoi segs)"
      using pos by (simp add: profile_child_def Let_def split: option.splits)
    show "wait_events (new_events s (snd (handle_single_command env cmdline s))) =
              concat (replicate (nat (atoi segs)) [EvPoll pid, EvSleep 1]) @
              [EvPoll pid, EvKill pid SIGKILL, EvWait pid] \<and>
            procs (snd (handle_single_command env cmdline s)) =
              procs s @ [(pid, profile_child env (cmd # args) 0 (- 1) (atoi segs))] \<and>
            hd (c_events (profile_child env (cmd # args) 0 (- 1) (atoi segs))) =
              EvAlarm (atoi segs)"
      by (intro conjI w1 w2 w3)
  qed
  have d: "\<not> leading_number str \<longrightarrow> atoi str = 0"
    using atoi_no_number by blast
  have e: "k < 2 ^ 31 \<and> (rest = [] \<or> \<not> isdigit (hd rest)) \<longrightarrow>
            atoi (show_nat k @ rest) = int k"
    using atoi_number_prefix by blast
  show ?thesis by (intro conjI a b c d e)
qed

lemma atoi_samples: "atoi ''abc'' = 0" "atoi ''-7'' = - 7" "atoi ''2x'' = 2"
  by (simp_all add: atoi_def strtol10_def isspace_def isdigit_def)

lemma parse_maxtiempo_samples:
  "parse_args ''miprof maxtiempo abc sleep 5'' =
     ''miprof'' # ''maxtiempo'' # ''abc'' # ''sleep'' # [''5'']"
  "parse_args ''miprof maxtiempo 2x sleep 5'' =
     ''miprof'' # ''maxtiempo'' # ''2x'' # ''sleep'' # [''5'']"
  by code_simp+

text \<open>
  The theorem on \<open>miprof maxtiempo abc sleep 5\<close> and on \<open>miprof maxtiempo 2x sleep 5\<close>.
\<close>

theorem maxtiempo_nonpositive_blocks_witness:
  "fst (handle_single_command env0 ''miprof maxtiempo abc sleep 5'' shell0) = Returned 0 \<and>
   new_events shell0 (snd (handle_single_command env0 ''miprof maxtiempo abc sleep 5'' shell0)) =
     [EvFork 100, EvSetFg 100, EvWait 100,
      EvWrite STDOUT_FILENO (summary_bytes env0 (summary_text env0 [''sleep'', ''5''] 256)),
      EvSetFg 0] \<and>
   c_events (profile_child env0 [''sleep'', ''5''] 0 (- 1) (atoi ''abc'')) = [] \<and>
   atoi ''abc'' = 0 \<and> atoi ''-7'' = - 7 \<and> atoi (show_nat 2 @ ''x'') = 2 \<and>
   wait_events (new_events shell0
       (snd (handle_single_command env_timeout ''miprof maxtiempo 2x sleep 5'' shell0))) =
     [EvPoll 100, EvSleep 1, EvPoll 100, EvSleep 1, EvPoll 100, EvKill 100 SIGKILL, EvWait 100]"
proof -
  have nn: "\<not> leading_number ''abc''" by (simp add: leading_number_def isspace_def isdigit_def)
  have h: "env_fork env0 0 = 100" "(100::int) \<noteq> - 1" "env_fork env_timeout 0 = 100"
    by (simp_all add: env0_def env_timeout_def)
  have w: "env_waitpid env0 100 = Reaped 256" "env_execvp env0 ''sleep'' [''sleep'', ''5''] = None"
    by (simp_all add: env0_def)
  have r: "\<forall>k\<le>nat 2. env_poll env_timeout k = StillRunning"
    by (simp add: env_timeout_def env0_def)
  have k: "(2::nat) < 2 ^ 31 \<and> (''x'' = [] \<or> \<not> isdigit (hd ''x''))"
    by (simp add: isdigit_def)
  have n2: "nat 2 = Suc (Suc 0)" by simp
  note T1 = maxtiempo_nonpositive_blocks[OF parse_maxtiempo_samples(1) h(1,2),
              where s = shell0 and str = "''abc''" and k = 2 and rest = "''x''"]
  note T2 = maxtiempo_nonpositive_blocks[OF parse_maxtiempo_samples(2) h(3,2),
              where s = shell0 and str = "''abc''" and k = 2 and rest = "''x''"]
  have a: "fst (handle_single_command env0 ''miprof maxtiempo abc sleep 5'' shell0) = Returned 0"
    using T1 by blast
  have b: "new_events shell0 (snd (handle_single_command env0 ''miprof maxtiempo abc sleep 5'' shell0)) =
     [EvFork 100, EvSetFg 100, EvWait 100,
      EvWrite STDOUT_FILENO (summary_bytes env0 (summary_text env0 [''sleep'', ''5''] 256)),
      EvSetFg 0]"
    and c: "c_events (profile_child env0 [''sleep'', ''5''] 0 (- 1) (atoi ''abc'')) = []"
    using T1 by (simp_all add: atoi_samples w)
  have d: "atoi ''abc'' = 0" using T1 nn by blast
  have e: "atoi (show_nat 2 @ ''x'') = 2" using T1 k by simp
  have f: "wait_events (new_events shell0
       (snd (handle_single_command env_timeout ''miprof maxtiempo 2x sleep 5'' shell0))) =
     [EvPoll 100, EvSleep 1, EvPoll 100, EvSleep 1, EvPoll 100, EvKill 100 SIGKILL, EvWait 100]"
    using T2 r by (simp add: atoi_samples n2 numeral_2_eq_2)
  show ?thesis by (intro conjI a b c d atoi_samples(2) e f)
qed

text \<open>
  C10 as stated fails on \<open>miprof maxtiempo 2x sleep 5\<close>: \<open>2x\<close> is not a numeric string,
  but \<open>atoi\<close> gives 2 for it and not 0; the child sets an alarm, the shell polls it and,
  as it is still running after two seconds, kills it.
\<close>

theorem maxtiempo_digit_prefix_is_timed:
  "\<not> spec_numeric ''2x'' \<and> atoi ''2x'' = 2 \<and>
   new_events shell0 (snd (handle_single_command env_timeout ''miprof maxtiempo 2x sleep 5'' shell0)) =
     [EvFork 100, EvSetFg 100,
      EvPoll 100, EvSleep 1, EvPoll 100, EvSleep 1, EvPoll 100, EvKill 100 SIGKILL, EvWait 100,
      EvWrite STDOUT_FILENO (summary_bytes env_timeout (summary_text env_timeout [''sleep'', ''5''] 9)),
      EvSetFg 0] \<and>
   c_events (snd (last (procs
      (snd (handle_single_command env_timeout ''miprof maxtiempo 2x sleep 5'' shell0))))) = [EvAlarm 2]"
proof -
  have a: "\<not> spec_numeric ''2x''" by (simp add: spec_numeric_def isdigit_def)
  have h: "handle_single_command env_timeout ''miprof maxtiempo 2x sleep 5'' shell0 =
        (Returned 0, snd (run_and_profile env_timeout [''sleep'', ''5''] 0 [] 2 shell0))"
    by (simp add: handle_single_command_def parse_maxtiempo_samples(2) Let_def atoi_samples)
  have f: "env_fork env_timeout 0 = 100" by (simp add: env_timeout_def env0_def)
  have n: "(100::int) \<noteq> - 1" by simp
  have u: "[0..<Suc (nat 2)] = [0, 1, 2]" by (simp add: upt_rec)
  have t: "timed_wait env_timeout 100 2 =
      (9, [EvPoll 100, EvSleep 1, EvPoll 100, EvSleep 1, EvPoll 100, EvKill 100 SIGKILL, EvWait 100])"
    unfolding timed_wait_def u
    by (simp add: env_timeout_def env0_def poll_events_def numeral_2_eq_2)
  have p: "c_events (profile_child env_timeout [''sleep'', ''5''] 0 (- 1) 2) = [EvAlarm 2]"
    by (simp add: profile_child_def env_timeout_def env0_def)
  show ?thesis
    unfolding h snd_conv run_and_profile_terminal[OF f n] t
    using a p by (simp add: new_events_def shell0_def atoi_samples)
qed

lemma summary_bytes_fits: "length text < SUMMARY_SIZE \<Longrightarrow> summary_bytes env text = text"
  by (simp add: summary_bytes_def SUMMARY_SIZE_def)

lemma summary_bytes_cut:
  assumes "SUMMARY_SIZE \<le> length text" and "text ! (SUMMARY_SIZE - 1) \<noteq> CHR 0x00"
  shows "summary_bytes env text \<noteq> text"
proof
  assume e: "summary_bytes env text = text"
  have l: "length (take (SUMMARY_SIZE - 1) text) = SUMMARY_SIZE - 1"
    using assms(1) by (simp add: SUMMARY_SIZE_def)
  have "summary_bytes env text ! (SUMMARY_SIZE - 1) =
        (take (SUMMARY_SIZE - 1) text @ [CHR 0x00] @ env_beyond env) ! (SUMMARY_SIZE - 1)"
    unfolding summary_bytes_def using assms(1) by (intro nth_take) (simp add: SUMMARY_SIZE_def)
  also have "\<dots> = CHR 0x00"
    using l by (simp add: nth_append)
  finally show False using e assms(2) by simp
qed

lemma summary_bytes_long:
  assumes "SUMMARY_SIZE \<le> length text"
  shows "summary_bytes env text =
     take (SUMMARY_SIZE - 1) text @ [CHR 0x00] @ take (length text - SUMMARY_SIZE) (env_beyond env)"
proof -
  obtain k where k: "length text = 1024 + k"
    using assms by (auto simp: SUMMARY_SIZE_def le_iff_add)
  show ?thesis by (simp add: summary_bytes_def SUMMARY_SIZE_def k)
qed

lemma ejecsave_files:
  assumes "save_to_file \<noteq> 0" and "env_mkstemp env = (tmpfd, tmpname)" and "tmpfd \<noteq> - 1"
    and "env_fork env 0 = pid" and "pid \<noteq> - 1"
    and "env_open env filename = outfd" and "outfd \<noteq> - 1" and "filename \<noteq> tmpname"
  shows "files (snd (run_and_profile env argv save_to_file filename T s)) =
     (files s)(filename \<mapsto> file_content s filename @ block_header argv @
                 child_output env (profile_child env argv save_to_file tmpfd T) @
                 summary_bytes env (summary_text env argv (fst (timed_wait env pid T))) @ NL,
               tmpname := None)"
  unfolding run_and_profile_save[OF assms(1,2,3,4,5)] save_output_open_ok[OF assms(6,7,8)]
  using assms(8) by (simp add: file_content_def fun_upd_twist)

text \<open>
  The block of \<open>ejecsave\<close> when the summary fits the array: the file named by
  \<open>filename\<close> holds its prior content (nothing, if it did not exist) followed by the
  header line, the capture, the summary and an empty line; the temporary file is gone
  and no other file has changed.
\<close>

lemma ejecsave_block_when_summary_fits:
  assumes "save_to_file \<noteq> 0" and "env_mkstemp env = (tmpfd, tmpname)" and "tmpfd \<noteq> - 1"
    and "env_fork env 0 = pid" and "pid \<noteq> - 1"
    and "env_open env filename = outfd" and "outfd \<noteq> - 1" and "filename \<noteq> tmpname"
    and "length (summary_text env argv (fst (run_and_profile env argv save_to_file filename T s)))
           < SUMMARY_SIZE"
  shows "files (snd (run_and_profile env argv save_to_file filename T s)) =
     (files s)(filename \<mapsto> file_content s filename @
                 spec_block (argv ! 0)
                   (child_output env (profile_child env argv save_to_file tmpfd T))
                   (summary_text env argv (fst (run_and_profile env argv save_to_file filename T s))),
               tmpname := None)"
proof -
  have m: "save_to_file \<noteq> 0 \<longrightarrow> fst (env_mkstemp env) \<noteq> - 1" using assms(2,3) by simp
  have st: "fst (run_and_profile env argv save_to_file filename T s) = fst (timed_wait env pid T)"
    by (rule run_and_profile_waits(1)[OF assms(4,5) m])
  show ?thesis
    unfolding ejecsave_files[OF assms(1-8)]
    using summary_bytes_fits[OF assms(9)[unfolded st]]
    by (simp add: st spec_block_def block_header_def)
qed

lemma ejecsave_block_when_summary_cut:
  assumes "save_to_file \<noteq> 0" and "env_mkstemp env = (tmpfd, tmpname)" and "tmpfd \<noteq> - 1"
    and "env_fork env 0 = pid" and "pid \<noteq> - 1"
    and "env_open env filename = outfd" and "outfd \<noteq> - 1" and "filename \<noteq> tmpname"
    and "SUMMARY_SIZE \<le>
           length (summary_text env argv (fst (run_and_profile env argv save_to_file filename T s)))"
    and "summary_text env argv (fst (run_and_profile env argv save_to_file filename T s)) !
           (SUMMARY_SIZE - 1) \<noteq> CHR 0x00"
  shows "files (snd (run_and_profile env argv save_to_file filename T s)) filename \<noteq>
     Some (file_content s filename @
             spec_block (argv ! 0)
               (child_output env (profile_child env argv save_to_file tmpfd T))
               (summary_text env argv (fst (run_and_profile env argv save_to_file filename T s))))"
proof -
  have m: "save_to_file \<noteq> 0 \<longrightarrow> fst (env_mkstemp env) \<noteq> - 1" using assms(2,3) by simp
  have st: "fst (run_and_profile env argv save_to_file filename T s) = fst (timed_wait env pid T)"
    by (rule run_and_profile_waits(1)[OF assms(4,5) m])
  show ?thesis
    unfolding ejecsave_files[OF assms(1-8)]
    using summary_bytes_cut[OF assms(9,10)[unfolded st]] assms(8)
    by (simp add: st spec_block_def block_header_def)
qed

lemma long_summary:
  "SUMMARY_SIZE \<le> length (summary_text env0 [long_name] st)"
  "summary_text env0 [long_name] st ! (SUMMARY_SIZE - 1) = CHR ''1''"
  by (simp_all add: summary_text_def long_name_def SUMMARY_SIZE_def env0_def NL_def nth_append)

text \<open>
  C6 fails on a long command name. With a name of 1000 characters the summary is longer
  than the array \<open>summary\<close>; what is appended after the capture is not the summary but
  its first 1023 bytes, a NUL and bytes from beyond the array. The lemma
  \<open>ejecsave_block_when_summary_fits\<close> above shows that the block is the specified one
  whenever the summary is shorter than the array.
\<close>

theorem ejecsave_long_command_name:
  "SUMMARY_SIZE \<le> length (summary_text env0 [long_name] 256) \<and>
   fst (run_and_profile env0 [long_name] 1 ''out.txt'' 0 shell_log) = 256 \<and>
   files (snd (run_and_profile env0 [long_name] 1 ''out.txt'' 0 shell_log)) ''out.txt'' =
     Some (''old'' @ NL @ block_header [long_name] @ ''hello'' @ NL @
           take (SUMMARY_SIZE - 1) (summary_text env0 [long_name] 256) @ [CHR 0x00] @
           take (length (summary_text env0 [long_name] 256) - SUMMARY_SIZE) (env_beyond env0) @ NL) \<and>
   files (snd (run_and_profile env0 [long_name] 1 ''out.txt'' 0 shell_log)) ''out.txt'' \<noteq>
     Some (''old'' @ NL @ spec_block long_name (''hello'' @ NL) (summary_text env0 [long_name] 256))"
proof -
  have h: "(1::int) \<noteq> 0" "env_mkstemp env0 = (3, ''/tmp/miprof_out_a1B2c3'')" "(3::int) \<noteq> - 1"
    "env_fork env0 0 = 100" "(100::int) \<noteq> - 1" "env_open env0 ''out.txt'' = 4" "(4::int) \<noteq> - 1"
    "''out.txt'' \<noteq> ''/tmp/miprof_out_a1B2c3''"
    by (simp_all add: env0_def)
  have tw: "timed_wait env0 100 0 = (256, [EvWait 100])"
    by (simp add: timed_wait_def env0_def)
  have m: "(1::int) \<noteq> 0 \<longrightarrow> fst (env_mkstemp env0) \<noteq> - 1" by (simp add: env0_def)
  have st: "fst (run_and_profile env0 [long_name] 1 ''out.txt'' 0 shell_log) = 256"
    using run_and_profile_waits(1)[OF h(4,5) m, of "[long_name]" "''out.txt''" 0 shell_log] tw by simp
  have ne: "long_name \<noteq> ''nosuchprogramxyz''"
  proof
    assume "long_name = ''nosuchprogramxyz''"
    then have "length long_name = length ''nosuchprogramxyz''" by (rule arg_cong)
    then show False by (simp add: long_name_def)
  qed
  have co: "child_output env0 (profile_child env0 [long_name] 1 3 0) = ''hello'' @ NL"
    by (simp add: child_output_def profile_child_def env0_def ne)
  have fc: "file_content shell_log ''out.txt'' = ''old'' @ NL"
    by (simp add: file_content_def shell_log_def)
  have sb: "summary_bytes env0 (summary_text env0 [long_name] 256) =
      take (SUMMARY_SIZE - 1) (summary_text env0 [long_name] 256) @ [CHR 0x00] @
      take (length (summary_text env0 [long_name] 256) - SUMMARY_SIZE) (env_beyond env0)"
    using long_summary(1)[of 256] by (rule summary_bytes_long)
  have a: "files (snd (run_and_profile env0 [long_name] 1 ''out.txt'' 0 shell_log)) ''out.txt'' =
     Some (''old'' @ NL @ block_header [long_name] @ ''hello'' @ NL @
           take (SUMMARY_SIZE - 1) (summary_text env0 [long_name] 256) @ [CHR 0x00] @
           take (length (summary_text env0 [long_name] 256) - SUMMARY_SIZE) (env_beyond env0) @ NL)"
    unfolding ejecsave_files[OF h] tw fst_conv co fc sb by simp
  have n: "summary_text env0 [long_name] 256 ! (SUMMARY_SIZE - 1) \<noteq> CHR 0x00"
    unfolding long_summary(2) by simp
  have b: "files (snd (run_and_profile env0 [long_name] 1 ''out.txt'' 0 shell_log)) ''out.txt'' \<noteq>
     Some (''old'' @ NL @ spec_block long_name (''hello'' @ NL) (summary_text env0 [long_name] 256))"
    using ejecsave_block_when_summary_cut[OF h, of "[long_name]" 0 shell_log]
          long_summary(1)[of 256] n
    by (simp add: st co fc)
  show ?thesis using long_summary(1)[of 256] st a b by blast
qed

end
